theory Spec2Isabelle
  imports Complex_Main "HOL-Library.Signed_Division"
begin

section \<open>Integer arithmetic of the source\<close>

text \<open>
  The source computes with C++ \<open>int\<close>.  Values are modelled as unbounded integers:
  signed overflow is undefined behaviour in C++ and lies outside this model.
  Integer division of the source truncates towards zero; it is \<open>sdiv\<close> here
  (HOL's \<open>div\<close> rounds down).  A division by zero is undefined behaviour in the
  source and is an explicit \<open>None\<close> of the model.
\<close>

definition cdiv :: "int \<Rightarrow> int \<Rightarrow> int option" where
  "cdiv k l = (if l = 0 then None else Some (k sdiv l))"

section \<open>AdaptiveScannerO2 (adaptivescannero2.cpp)\<close>

type_synonym Pt2i = "int \<times> int"

text \<open>
  The fields of the scanner.  The pattern \<open>steps\<close> is an array of \<open>nbs\<close> booleans;
  the pointers \<open>lst2\<close>, \<open>rst2\<close> and the local \<open>nst\<close> of the source are indices into
  it, and \<open>fs = steps + nbs\<close> is its length.
\<close>

record scanner =
  xmin :: int
  ymin :: int
  xmax :: int
  ymax :: int
  steps :: "bool list"
  lcx :: int
  lcy :: int
  rcx :: int
  rcy :: int
  lst2 :: nat
  rst2 :: nat
  dla :: int
  dlb :: int
  dlc1 :: int
  dlc2 :: int
  templ_a :: int
  templ_b :: int
  templ_nu :: int
  clearance :: bool

subsection \<open>bindTo\<close>

text \<open>The two norms of a direction, as \<open>bindTo\<close> computes them.\<close>

definition iabs :: "int \<Rightarrow> int" where
  "iabs k = (if k < 0 then - k else k)"

definition old_n1 :: "scanner \<Rightarrow> int" where
  "old_n1 s = templ_a s + iabs (templ_b s)"

definition old_ninf :: "scanner \<Rightarrow> int" where
  "old_ninf s = (if iabs (templ_b s) > templ_a s then iabs (templ_b s) else templ_a s)"

definition new_n1 :: "int \<Rightarrow> int \<Rightarrow> int" where
  "new_n1 a b = iabs a + iabs b"

definition new_ninf :: "int \<Rightarrow> int \<Rightarrow> int" where
  "new_ninf a b = (if iabs b > iabs a then iabs b else iabs a)"

text \<open>The rescaled thickness \<open>nu\<close> of \<open>bindTo\<close>.\<close>

definition bind_nu :: "scanner \<Rightarrow> int \<Rightarrow> int \<Rightarrow> int option" where
  "bind_nu s a b =
     (if new_n1 a b * old_ninf s > old_n1 s * new_ninf a b
      then cdiv (templ_nu s * new_n1 a b) (old_n1 s)
      else cdiv (templ_nu s * new_ninf a b) (old_ninf s))"

definition bindTo :: "scanner \<Rightarrow> int \<Rightarrow> int \<Rightarrow> int \<Rightarrow> scanner option" where
  "bindTo s a b c0 =
     (let s1 = (if a < 0 then s\<lparr>dla := - a, dlb := - b\<rparr> else s\<lparr>dla := a, dlb := b\<rparr>);
          c = (if a < 0 then - c0 else c0)
      in case bind_nu s a b of
           None \<Rightarrow> None
         | Some nu \<Rightarrow> Some (s1\<lparr>dlc1 := c + nu sdiv 2, dlc2 := c - nu sdiv 2\<rparr>))"

subsection \<open>Walking the pattern\<close>

text \<open>
  A position of a walk is the pixel \<open>(x, y)\<close> and the index of the current step.
  \<open>fwd\<close> is the body \<open>if (*nst) y++; x--; if (++nst >= fs) nst = steps;\<close> and
  \<open>bwd\<close> the body \<open>if (--lst2 < steps) lst2 = steps + nbs - 1; if (*lst2) lcy--; lcx++;\<close>.
\<close>

type_synonym cursor = "int \<times> int \<times> nat"

definition fwd :: "scanner \<Rightarrow> cursor \<Rightarrow> cursor" where
  "fwd s p = (case p of (x, y, i) \<Rightarrow>
     (x - 1, (if steps s ! i then y + 1 else y),
      (if Suc i \<ge> length (steps s) then 0 else Suc i)))"

definition bwd :: "scanner \<Rightarrow> cursor \<Rightarrow> cursor" where
  "bwd s p = (case p of (x, y, i) \<Rightarrow>
     (let i' = (if i = 0 then length (steps s) - 1 else i - 1)
      in (x + 1, (if steps s ! i' then y - 1 else y), i')))"

definition val :: "scanner \<Rightarrow> int \<Rightarrow> int \<Rightarrow> int" where
  "val s x y = dla s * x + dlb s * y"

text \<open>
  The first loop of a scan, \<open>while ((y < ymin || x >= xmax) && dla * x + dlb * y >= dlc2)\<close>,
  skips the part of the scan line that lies outside of the rectangle.  Nothing bounds
  it in general (with \<open>dla = 0\<close> and \<open>y < ymin\<close> it never ends), so that not returning
  is the value \<open>None\<close>.
\<close>

partial_function (option) skip_out :: "scanner \<Rightarrow> cursor \<Rightarrow> cursor option" where
  "skip_out s p =
     (if (fst (snd p) < ymin s \<or> fst p \<ge> xmax s) \<and> val s (fst p) (fst (snd p)) \<ge> dlc2 s
      then skip_out s (fwd s p) else Some p)"

text \<open>
  The second loop, \<open>while (dla * x + dlb * y >= dlc2 && y < ymax && x >= xmin)\<close>, pushes
  the pixels; \<open>x\<close> decreases at each step, which bounds it.
\<close>

function emit :: "scanner \<Rightarrow> cursor \<Rightarrow> Pt2i list" where
  "emit s (x, y, i) =
     (if val s x y \<ge> dlc2 s \<and> y < ymax s \<and> x \<ge> xmin s
      then (x, y) # emit s (fwd s (x, y, i)) else [])"
  by pat_completeness auto
termination
  by (relation "measure (\<lambda>(s, x, y, i). nat (x - xmin s + 1))") (auto simp: fwd_def)

text \<open>
  The two loops that bring a cursor back onto the control line \<open>dlc1\<close> after it was
  shifted: \<open>while (lcx > xmin && lcy < ymax && dla * lcx + dlb * lcy > dlc1)\<close> and
  \<open>while (lcx < xmax - 1 && lcy >= ymin && dla * lcx + dlb * lcy < dlc1)\<close>.
\<close>

function adj_fwd :: "scanner \<Rightarrow> cursor \<Rightarrow> cursor" where
  "adj_fwd s (x, y, i) =
     (if x > xmin s \<and> y < ymax s \<and> val s x y > dlc1 s
      then adj_fwd s (fwd s (x, y, i)) else (x, y, i))"
  by pat_completeness auto
termination
  by (relation "measure (\<lambda>(s, x, y, i). nat (x - xmin s))") (auto simp: fwd_def)

function adj_bwd :: "scanner \<Rightarrow> cursor \<Rightarrow> cursor" where
  "adj_bwd s (x, y, i) =
     (if x < xmax s - 1 \<and> y \<ge> ymin s \<and> val s x y < dlc1 s
      then adj_bwd s (bwd s (x, y, i)) else (x, y, i))"
  by pat_completeness auto
termination
  by (relation "measure (\<lambda>(s, x, y, i). nat (xmax s - 1 - x))") (auto simp: bwd_def Let_def)

declare emit.simps [simp del] adj_fwd.simps [simp del] adj_bwd.simps [simp del]

declare skip_out.simps [code]

subsection \<open>The scans\<close>

text \<open>
  Each scan function takes the vector \<open>scan\<close> it appends to and returns the vector,
  the count it returns (\<open>scan.size ()\<close>) and the scanner.  \<open>first\<close> is \<open>const\<close> and
  never clears the vector; the others clear it first when \<open>clearance\<close> is set.
\<close>

definition scan_from :: "scanner \<Rightarrow> cursor \<Rightarrow> Pt2i list \<Rightarrow> (Pt2i list \<times> int \<times> scanner) option" where
  "scan_from s p scan =
     (case skip_out s p of
        None \<Rightarrow> None
      | Some q \<Rightarrow> (let scan' = scan @ emit s q in Some (scan', int (length scan'), s)))"

definition first :: "scanner \<Rightarrow> Pt2i list \<Rightarrow> (Pt2i list \<times> int \<times> scanner) option" where
  "first s scan = scan_from s (lcx s, lcy s, lst2 s) scan"

definition skipLeft :: "scanner \<Rightarrow> Pt2i list \<Rightarrow> int \<Rightarrow> (Pt2i list \<times> int \<times> scanner) option" where
  "skipLeft s scan skip =
     (let scan0 = (if clearance s then [] else scan);
          (x, y, i) = adj_bwd s (adj_fwd s (lcx s, lcy s - skip, lst2 s));
          s' = s\<lparr>lcx := x, lcy := y, lst2 := i\<rparr>
      in scan_from s' (x, y, i) scan0)"

definition skipRight :: "scanner \<Rightarrow> Pt2i list \<Rightarrow> int \<Rightarrow> (Pt2i list \<times> int \<times> scanner) option" where
  "skipRight s scan skip =
     (let scan0 = (if clearance s then [] else scan);
          (x, y, i) = adj_bwd s (adj_fwd s (rcx s, rcy s + skip, rst2 s));
          s' = s\<lparr>rcx := x, rcy := y, rst2 := i\<rparr>
      in scan_from s' (x, y, i) scan0)"

definition nextOnLeft :: "scanner \<Rightarrow> Pt2i list \<Rightarrow> (Pt2i list \<times> int \<times> scanner) option" where
  "nextOnLeft s scan =
     (let scan0 = (if clearance s then [] else scan);
          (x, y, i) = adj_bwd s (adj_fwd s (lcx s, lcy s - 1, lst2 s));
          s' = s\<lparr>lcx := x, lcy := y, lst2 := i\<rparr>
      in scan_from s' (x, y, i) scan0)"

definition nextOnRight :: "scanner \<Rightarrow> Pt2i list \<Rightarrow> (Pt2i list \<times> int \<times> scanner) option" where
  "nextOnRight s scan =
     (let scan0 = (if clearance s then [] else scan);
          (x, y, i) = adj_bwd s (adj_fwd s (rcx s, rcy s + 1, rst2 s));
          s' = s\<lparr>rcx := x, rcy := y, rst2 := i\<rparr>
      in scan_from s' (x, y, i) scan0)"

text \<open>The five scans of the interface, as one call.\<close>

datatype scan_call = First | NextOnLeft | NextOnRight | SkipLeft int | SkipRight int

fun run_scan :: "scanner \<Rightarrow> scan_call \<Rightarrow> Pt2i list \<Rightarrow> (Pt2i list \<times> int \<times> scanner) option" where
  "run_scan s First scan = first s scan"
| "run_scan s NextOnLeft scan = nextOnLeft s scan"
| "run_scan s NextOnRight scan = nextOnRight s scan"
| "run_scan s (SkipLeft k) scan = skipLeft s scan k"
| "run_scan s (SkipRight k) scan = skipRight s scan k"

text \<open>The pixels that are in the vector before a scan appends to it.\<close>

fun kept :: "scanner \<Rightarrow> scan_call \<Rightarrow> Pt2i list \<Rightarrow> Pt2i list" where
  "kept s First scan = scan"
| "kept s _ scan = (if clearance s then [] else scan)"

text \<open>The pixels that a scan appended.\<close>

definition new_pixels :: "scanner \<Rightarrow> scan_call \<Rightarrow> Pt2i list \<Rightarrow> Pt2i list \<Rightarrow> Pt2i list" where
  "new_pixels s call scan scan' = drop (length (kept s call scan)) scan'"

text \<open>
  The first constructor: a scanner from a pattern, a start point \<open>(sx, sy)\<close> and the
  bound \<open>c\<close> of the far support line.

  Modelled from the spec: the constructor of the base class \<open>DirectionalScanner\<close>
  (directionalscanner.h is not part of the sources at hand), which stores the
  rectangle and the pattern, puts both cursors on the start point and sets
  \<open>clearance\<close>.
\<close>

definition AdaptiveScannerO2 ::
  "int \<Rightarrow> int \<Rightarrow> int \<Rightarrow> int \<Rightarrow> int \<Rightarrow> int \<Rightarrow> int \<Rightarrow> bool list \<Rightarrow> int \<Rightarrow> int \<Rightarrow> scanner" where
  "AdaptiveScannerO2 x0 y0 x1 y1 a b c sts sx sy =
     \<lparr>xmin = x0, ymin = y0, xmax = x1, ymax = y1, steps = sts,
      lcx = sx, lcy = sy, rcx = sx, rcy = sy, lst2 = 0, rst2 = 0,
      dla = a, dlb = b, dlc1 = a * sx + b * sy, dlc2 = c,
      templ_a = a, templ_b = b, templ_nu = a * sx + b * sy - c, clearance = True\<rparr>"

text \<open>
  The scanner of the stroke from \<open>(2, 0)\<close> to \<open>(0, 1)\<close> in the square
  \<open>[-10, 10) \<times> [-10, 10)\<close>: direction \<open>(2, -1)\<close>, pattern "one plain step, one
  step with a move in \<open>y\<close>", support lines \<open>2x - y = 4\<close> and \<open>2x - y = -1\<close>.
\<close>

definition scan_ex :: scanner where
  "scan_ex = AdaptiveScannerO2 (- 10) (- 10) 10 10 2 (- 1) (- 1) [False, True] 2 0"

section \<open>Floating-point values (pt2f.cpp, pt3f.cpp)\<close>

text \<open>
  A \<open>float\<close> of the source is an IEEE 754 binary32 value: a finite value, an
  infinity or a NaN.  A finite value is the real number it stands for; the two
  zeros are one value \<open>Fin 0\<close>.  Every operation computes the exact result and
  rounds it to the nearest binary32 value, ties to the even significand
  (\<open>round32\<close>), each operation on its own: the source is taken to be compiled
  without extended precision and without fused multiply-add.
\<close>

datatype float = Fin real | PInf | NInf | NaN

text \<open>
  Rounding to the nearest integer, ties to even.  The binary32 values are the
  multiples \<open>m * q\<close> of a quantum \<open>q\<close> with \<open>\<bar>m\<bar> < 2 ^ 24\<close>; the quantum of a
  real of magnitude \<open>a\<close> is the smallest one \<open>2 ^ i / 2 ^ 149\<close> with
  \<open>a < q * 2 ^ 24\<close>, which \<open>quantum_up\<close> searches from the quantum \<open>2 ^ -149\<close> of
  the subnormal values upwards.  A result of magnitude \<open>2 ^ 128\<close> or more
  overflows to an infinity.
\<close>

definition rne :: "real \<Rightarrow> int" where
  "rne y = (let f = \<lfloor>y\<rfloor> in
            if y - of_int f < 1 / 2 then f
            else if 1 / 2 < y - of_int f then f + 1
            else if even f then f else f + 1)"

definition ulp_min :: real where
  "ulp_min = 1 / 2 ^ 149"

fun quantum_up :: "nat \<Rightarrow> real \<Rightarrow> real \<Rightarrow> real" where
  "quantum_up 0 a q = q"
| "quantum_up (Suc n) a q = (if a < q * 2 ^ 24 then q else quantum_up n a (2 * q))"

definition quantum32 :: "real \<Rightarrow> real" where
  "quantum32 a = quantum_up 254 a ulp_min"

definition round32 :: "real \<Rightarrow> float" where
  "round32 x =
     (let q = quantum32 \<bar>x\<bar>; r = of_int (rne (x / q)) * q
      in if 2 ^ 128 \<le> \<bar>r\<bar> then (if 0 < x then PInf else NInf) else Fin r)"

fun fmul :: "float \<Rightarrow> float \<Rightarrow> float" where
  "fmul (Fin x) (Fin y) = round32 (x * y)"
| "fmul NaN _ = NaN"
| "fmul _ NaN = NaN"
| "fmul (Fin x) PInf = (if x = 0 then NaN else if x > 0 then PInf else NInf)"
| "fmul (Fin x) NInf = (if x = 0 then NaN else if x > 0 then NInf else PInf)"
| "fmul PInf (Fin y) = (if y = 0 then NaN else if y > 0 then PInf else NInf)"
| "fmul NInf (Fin y) = (if y = 0 then NaN else if y > 0 then NInf else PInf)"
| "fmul PInf PInf = PInf"
| "fmul NInf NInf = PInf"
| "fmul PInf NInf = NInf"
| "fmul NInf PInf = NInf"

fun fadd :: "float \<Rightarrow> float \<Rightarrow> float" where
  "fadd (Fin x) (Fin y) = round32 (x + y)"
| "fadd NaN _ = NaN"
| "fadd _ NaN = NaN"
| "fadd PInf NInf = NaN"
| "fadd NInf PInf = NaN"
| "fadd PInf _ = PInf"
| "fadd _ PInf = PInf"
| "fadd NInf _ = NInf"
| "fadd _ NInf = NInf"

text \<open>
  \<open>sqrt\<close>: whether the call is the \<open>float\<close> one or the \<open>double\<close> one whose result is
  converted back, the value is the square root rounded to binary32.
\<close>

fun fsqrt :: "float \<Rightarrow> float" where
  "fsqrt (Fin x) = (if x < 0 then NaN else round32 (sqrt x))"
| "fsqrt PInf = PInf"
| "fsqrt NInf = NaN"
| "fsqrt NaN = NaN"

fun fdiv :: "float \<Rightarrow> float \<Rightarrow> float" where
  "fdiv (Fin x) (Fin y) =
     (if y = 0 then (if x = 0 then NaN else if x > 0 then PInf else NInf)
      else round32 (x / y))"
| "fdiv NaN _ = NaN"
| "fdiv _ NaN = NaN"
| "fdiv (Fin x) PInf = Fin 0"
| "fdiv (Fin x) NInf = Fin 0"
| "fdiv PInf (Fin y) = (if y < 0 then NInf else PInf)"
| "fdiv NInf (Fin y) = (if y < 0 then PInf else NInf)"
| "fdiv PInf PInf = NaN"
| "fdiv PInf NInf = NaN"
| "fdiv NInf PInf = NaN"
| "fdiv NInf NInf = NaN"

fun finite_float :: "float \<Rightarrow> bool" where
  "finite_float (Fin x) = True"
| "finite_float _ = False"

text \<open>The comparison \<open>n != 0.0f\<close>: true of a NaN.\<close>

definition fne0 :: "float \<Rightarrow> bool" where
  "fne0 n = (n \<noteq> Fin 0)"

text \<open>
  The negation (exact), the subtraction, the comparison \<open><\<close> (false of a NaN), the
  conversion of an \<open>int\<close> to \<open>float\<close> (rounded) and the conversion \<open>(int)\<close> of a
  \<open>float\<close>, which truncates towards zero and is undefined, \<open>None\<close> here, when the
  value is not finite or does not fit a 32-bit \<open>int\<close>.
\<close>

fun fneg :: "float \<Rightarrow> float" where
  "fneg (Fin x) = Fin (- x)"
| "fneg PInf = NInf"
| "fneg NInf = PInf"
| "fneg NaN = NaN"

definition fsub :: "float \<Rightarrow> float \<Rightarrow> float" where
  "fsub a b = fadd a (fneg b)"

fun flt :: "float \<Rightarrow> float \<Rightarrow> bool" where
  "flt (Fin x) (Fin y) = (x < y)"
| "flt NaN _ = False"
| "flt _ NaN = False"
| "flt NInf NInf = False"
| "flt NInf _ = True"
| "flt _ NInf = False"
| "flt PInf _ = False"
| "flt _ PInf = True"

definition fle :: "float \<Rightarrow> float \<Rightarrow> bool" where
  "fle a b = (a \<noteq> NaN \<and> b \<noteq> NaN \<and> \<not> flt b a)"

definition fint :: "int \<Rightarrow> float" where
  "fint k = round32 (of_int k)"

fun ftrunc :: "float \<Rightarrow> int option" where
  "ftrunc (Fin x) =
     (let k = (if x < 0 then \<lceil>x\<rceil> else \<lfloor>x\<rfloor>)
      in if - (2 ^ 31) \<le> k \<and> k < 2 ^ 31 then Some k else None)"
| "ftrunc _ = None"

record Pt2f =
  xp2 :: float
  yp2 :: float

record Pt3f =
  xp :: float
  yp :: float
  zp :: float

definition Pt2f_normalize :: "Pt2f \<Rightarrow> Pt2f" where
  "Pt2f_normalize p =
     (let n = fsqrt (fadd (fmul (xp2 p) (xp2 p)) (fmul (yp2 p) (yp2 p)))
      in p\<lparr>xp2 := fdiv (xp2 p) n, yp2 := fdiv (yp2 p) n\<rparr>)"

definition Pt3f_normalize :: "Pt3f \<Rightarrow> Pt3f" where
  "Pt3f_normalize p =
     (let n = fsqrt (fadd (fadd (fmul (xp p) (xp p)) (fmul (yp p) (yp p)))
                          (fmul (zp p) (zp p)))
      in if fne0 n then p\<lparr>xp := fdiv (xp p) n, yp := fdiv (yp p) n, zp := fdiv (zp p) n\<rparr>
         else p)"


section \<open>CTrackDetector (ctrackdetector.cpp)\<close>

datatype result =
    RESULT_NONE
  | RESULT_OK
  | RESULT_FAIL_TOO_NARROW_INPUT
  | RESULT_FAIL_NO_AVAILABLE_SCAN
  | RESULT_FAIL_NO_CENTRAL_PLATEAU
  | RESULT_FAIL_NO_CONSISTENT_SEQUENCE
  | RESULT_FAIL_NO_BOUNDS
  | RESULT_FAIL_TOO_HECTIC_PLATEAUX
  | RESULT_FAIL_TOO_SPARSE_PLATEAUX
  | RESULT_FAIL_DISCONNECT

definition MAX_TRACK_WIDTH :: float where
  "MAX_TRACK_WIDTH = Fin 6"

definition NOBOUNDS_TOLERANCE :: int where
  "NOBOUNDS_TOLERANCE = 10"

definition NB_SIDE_TRIALS :: nat where
  "NB_SIDE_TRIALS = 5"

subsection \<open>Plateaux and carriage tracks\<close>

text \<open>
  Modelled from the spec: \<open>Plateau\<close> (plateau.h and plateau.cpp are not among the
  sources).  A plateau is the record of what the detector reads from it:
  \<open>pl_ok\<close> is \<open>getStatus () == PLATEAU_RES_OK\<close>, \<open>pl_under_used\<close> is
  \<open>getStatus () == PLATEAU_RES_OPTIMAL_HEIGHT_UNDER_USED\<close>, \<open>pl_bounded\<close> is
  \<open>bounded ()\<close>, and the other fields bear the names of their accessors.
\<close>

record plateau =
  pl_ok :: bool
  pl_under_used :: bool
  noOptimalHeight :: bool
  hasEnoughPoints :: bool
  pl_bounded :: bool
  isAccepted :: bool
  reliable :: bool
  estimatedCenter :: float
  estimatedWidth :: float
  internalStart :: float
  internalEnd :: float
  getMinHeight :: float

text \<open>
  Modelled from the spec: \<open>CarriageTrack\<close> (carriagetrack.cpp is not among the
  sources), "an ordered map from integer scan index (0 = central, negative = right
  side, positive = left side) to Plateau" with a status.  \<open>ct_right\<close> holds the
  plateaux \<open>-1, -2, ...\<close> and \<open>ct_left\<close> the plateaux \<open>1, 2, ...\<close>; \<open>plateau (k)\<close> is
  null where the track has no plateau, \<open>accept (k)\<close> marks the plateau \<open>k\<close> accepted,
  \<open>add\<close> appends on a side, \<open>clear\<close> empties a side, \<open>start\<close> sets the central
  plateau.  A new track is taken to have the status \<open>RESULT_NONE\<close>.
\<close>

record ctrack =
  ct_status :: result
  ct_central :: "plateau option"
  ct_right :: "plateau list"
  ct_left :: "plateau list"

definition ct_new :: ctrack where
  "ct_new = \<lparr>ct_status = RESULT_NONE, ct_central = None, ct_right = [], ct_left = []\<rparr>"

definition side_plateau :: "plateau list \<Rightarrow> int \<Rightarrow> plateau option" where
  "side_plateau ps k = (if 1 \<le> k \<and> k \<le> int (length ps) then Some (ps ! (nat k - 1)) else None)"

definition ct_plateau :: "ctrack \<Rightarrow> int \<Rightarrow> plateau option" where
  "ct_plateau t k =
     (if k = 0 then ct_central t
      else if k < 0 then side_plateau (ct_right t) (- k)
      else side_plateau (ct_left t) k)"

definition side_accept :: "plateau list \<Rightarrow> int \<Rightarrow> plateau list" where
  "side_accept ps k =
     (if 1 \<le> k \<and> k \<le> int (length ps)
      then ps[nat k - 1 := (ps ! (nat k - 1))\<lparr>isAccepted := True\<rparr>] else ps)"

definition ct_accept :: "ctrack \<Rightarrow> int \<Rightarrow> ctrack" where
  "ct_accept t k =
     (if k = 0 then t\<lparr>ct_central := map_option (\<lambda>pl. pl\<lparr>isAccepted := True\<rparr>) (ct_central t)\<rparr>
      else if k < 0 then t\<lparr>ct_right := side_accept (ct_right t) (- k)\<rparr>
      else t\<lparr>ct_left := side_accept (ct_left t) k\<rparr>)"

definition ct_add :: "bool \<Rightarrow> plateau \<Rightarrow> ctrack \<Rightarrow> ctrack" where
  "ct_add onright pl t =
     (if onright then t\<lparr>ct_right := ct_right t @ [pl]\<rparr> else t\<lparr>ct_left := ct_left t @ [pl]\<rparr>)"

definition ct_clear :: "bool \<Rightarrow> ctrack \<Rightarrow> ctrack" where
  "ct_clear onright t = (if onright then t\<lparr>ct_right := []\<rparr> else t\<lparr>ct_left := []\<rparr>)"

definition ct_start :: "plateau \<Rightarrow> ctrack \<Rightarrow> ctrack" where
  "ct_start cpl t = t\<lparr>ct_central := Some cpl\<rparr>"

subsection \<open>The detector\<close>

text \<open>
  The fields of the detector that the detection reads and writes.  \<open>det_csize\<close> is
  \<open>csize\<close>; \<open>ip1\<close>, \<open>ip2\<close> are the initial stroke and \<open>fp1\<close>, \<open>fp2\<close> the final one.
  The registers of positions and heights are left out: they reach nothing but the
  reference pattern handed to \<open>Plateau::track\<close>.
\<close>

record det =
  auto_p :: bool
  initial_track_extent :: int
  plateau_lack_tolerance :: int
  density_insensitive :: bool
  density_pruning :: bool
  min_density :: int
  shift_length_pruning :: bool
  max_shift_length :: float
  det_csize :: float
  subdiv :: int
  ip1 :: Pt2i
  ip2 :: Pt2i
  fp1 :: Pt2i
  fp2 :: Pt2i
  fct :: "ctrack option"
  fstatus :: result
  ict :: "ctrack option"
  istatus :: result
  initial_unbounded :: bool
  initial_refs :: float
  initial_refe :: float
  initial_refh :: float
  out_count :: int

text \<open>The locals of a side walk (\<open>track\<close>) and the detector it works on.\<close>

record walk =
  search :: bool
  nbfail :: int
  num :: int
  confdist :: int
  wdet :: det

text \<open>
  What the detection gets from the code that is not modelled here: the tile set,
  the scanners, the plateau detector, the feature model \<open>pfeat\<close> and the measures
  of a carriage track.  Each field stands for the calls named beside it; a field
  that takes the detector or the walk may depend on everything the detection has
  done so far (the stroke, the bound scanners, the reference pattern, the
  registers).

  \<^item> \<open>collectPoints\<close>: \<open>ptset->collectPoints (ptcl, x, y)\<close>, the value returned and
    the points appended to the empty \<open>ptcl\<close>;
  \<^item> \<open>central_scan\<close>: the pixels of the central scan, for the initial stroke
    (\<open>True\<close>) or the final one;
  \<^item> \<open>disp_next\<close>: the pixels that \<open>disp->nextOnRight\<close> or \<open>nextOnLeft\<close> appends to
    \<open>dispix\<close> after \<open>bindTo\<close>; \<open>ds_next w i\<close>: the pixels that the call number \<open>i\<close>
    of \<open>ds->nextOnRight\<close> or \<open>nextOnLeft\<close> appends to \<open>pix\<close>;
  \<^item> \<open>plateau_detect\<close>, \<open>plateau_detect2\<close>: a new plateau after
    \<open>detect (cpts)\<close> and after \<open>detect (cpts, false, minHeight)\<close>, with the value
    returned; \<open>plateau_track w pts shift\<close>: a new plateau after \<open>sort\<close> and
    \<open>track (pts, refs, refe, refh, shift, confdist)\<close>; \<open>auto_track d pts shift l12\<close>:
    a new plateau after \<open>track (cpts, 0.0f, l12, 0.0f, shift, 0)\<close>, the call of the
    automatic mode, with the value returned; \<open>thinerThan\<close>, \<open>pl_contains\<close>,
    \<open>acceptResult\<close>: the methods of \<open>Plateau\<close>;
  \<^item> \<open>startLength\<close>, \<open>plateauSearchDistance\<close>, \<open>firstPlateauSearchDistance\<close>,
    \<open>tailMinSize\<close>: the values of \<open>pfeat\<close>;
  \<^item> \<open>prune\<close>, \<open>relativeShiftLength\<close>, \<open>nbHoles\<close>, \<open>spread\<close>: the methods of
    \<open>CarriageTrack\<close>; \<open>CT_MAX_WIDTH\<close>: the constant \<open>CarriageTrack::MAX_WIDTH\<close>.

  The detector is modelled with the net building of the feature model off
  (\<open>pfeat.isNetBuildOn ()\<close> false; nothing in the sources sets it): the second
  \<open>track\<close>, "AMRELnet version", and the branches of \<open>detect ()\<close> that lead to it
  are outside this model.
\<close>

record env =
  collectPoints :: "Pt2i \<Rightarrow> bool \<times> Pt3f list"
  central_scan :: "det \<Rightarrow> bool \<Rightarrow> Pt2i list"
  disp_next :: "walk \<Rightarrow> Pt2i list"
  ds_next :: "walk \<Rightarrow> nat \<Rightarrow> Pt2i list"
  plateau_detect :: "det \<Rightarrow> Pt2f list \<Rightarrow> plateau \<times> bool"
  plateau_detect2 :: "det \<Rightarrow> Pt2f list \<Rightarrow> float \<Rightarrow> plateau \<times> bool"
  plateau_track :: "walk \<Rightarrow> Pt2f list \<Rightarrow> float \<Rightarrow> plateau"
  auto_track :: "det \<Rightarrow> Pt2f list \<Rightarrow> float \<Rightarrow> float \<Rightarrow> plateau \<times> bool"
  thinerThan :: "plateau \<Rightarrow> plateau \<Rightarrow> bool"
  pl_contains :: "plateau \<Rightarrow> float \<Rightarrow> bool"
  acceptResult :: "plateau \<Rightarrow> plateau"
  startLength :: float
  plateauSearchDistance :: float
  firstPlateauSearchDistance :: float
  tailMinSize :: int
  prune :: "ctrack \<Rightarrow> int \<Rightarrow> ctrack \<times> bool"
  relativeShiftLength :: "ctrack \<Rightarrow> float"
  nbHoles :: "ctrack \<Rightarrow> int"
  spread :: "ctrack \<Rightarrow> int"
  CT_MAX_WIDTH :: float

subsection \<open>The stroke and the points of a scan\<close>

text \<open>
  \<open>Vr2f p12 (csize * (p2.x () - p1.x ()), csize * (p2.y () - p1.y ()))\<close>,
  \<open>Pt2f p1f (csize * (p1.x () + 0.5f), csize * (p1.y () + 0.5f))\<close> and
  \<open>l12 = (float) sqrt (p12.x () * p12.x () + p12.y () * p12.y ())\<close>.
\<close>

type_synonym Vr2f = Pt2f

type_synonym geom = "Pt2f \<times> Vr2f \<times> float"

definition stroke_p12 :: "float \<Rightarrow> Pt2i \<Rightarrow> Pt2i \<Rightarrow> Vr2f" where
  "stroke_p12 cs p1 p2 =
     \<lparr>xp2 = fmul cs (fint (fst p2 - fst p1)), yp2 = fmul cs (fint (snd p2 - snd p1))\<rparr>"

definition stroke_p1f :: "float \<Rightarrow> Pt2i \<Rightarrow> Pt2f" where
  "stroke_p1f cs p1 =
     \<lparr>xp2 = fmul cs (fadd (fint (fst p1)) (Fin (1 / 2))),
      yp2 = fmul cs (fadd (fint (snd p1)) (Fin (1 / 2)))\<rparr>"

definition stroke_l12 :: "Vr2f \<Rightarrow> float" where
  "stroke_l12 p12 = fsqrt (fadd (fmul (xp2 p12) (xp2 p12)) (fmul (yp2 p12) (yp2 p12)))"

text \<open>The test \<open>l12 < MAX_TRACK_WIDTH\<close> on the input stroke.\<close>

definition too_narrow :: "float \<Rightarrow> Pt2i \<Rightarrow> Pt2i \<Rightarrow> bool" where
  "too_narrow cs p1 p2 = flt (stroke_l12 (stroke_p12 cs p1 p2)) MAX_TRACK_WIDTH"

text \<open>
  The position of a point along the stroke and its height:
  \<open>Vr2f pcl (pit->x () - p1f.x (), pit->y () - p1f.y ())\<close> and
  \<open>Pt2f (pcl.scalarProduct (p12) / l12, pit->z ())\<close>.
\<close>

definition project :: "Pt2f \<Rightarrow> Vr2f \<Rightarrow> float \<Rightarrow> Pt3f \<Rightarrow> Pt2f" where
  "project p1f p12 l12 pt =
     (let pclx = fsub (xp pt) (xp2 p1f); pcly = fsub (yp pt) (yp2 p1f)
      in \<lparr>xp2 = fdiv (fadd (fmul pclx (xp2 p12)) (fmul pcly (yp2 p12))) l12, yp2 = zp pt\<rparr>)"

text \<open>
  The loop that collects the points of the pixels of a scan (in \<open>detect\<close> and in
  \<open>track\<close>): for each pixel, \<open>if (! ptset->collectPoints (ptcl, x, y)) out_count ++;\<close>
  and then every point of \<open>ptcl\<close> is projected and pushed.  The accumulator is the
  vector of points and \<open>out_count\<close>.
\<close>

fun collect ::
  "(Pt2i \<Rightarrow> bool \<times> Pt3f list) \<Rightarrow> Pt2f \<Rightarrow> Vr2f \<Rightarrow> float \<Rightarrow> Pt2i list \<Rightarrow> Pt2f list \<times> int
     \<Rightarrow> Pt2f list \<times> int" where
  "collect cp p1f p12 l12 [] acc = acc"
| "collect cp p1f p12 l12 (px # pix) acc =
     collect cp p1f p12 l12 pix
       (fst acc @ map (project p1f p12 l12) (snd (cp px)),
        (if \<not> fst (cp px) then snd acc + 1 else snd acc))"

subsection \<open>The side walk: track\<close>

text \<open>
  The candidates of one scan.  The plateau of shift 0 is built first; when its
  status is not OK a second one is built with the shift \<open>plateauSearchDistance\<close>,
  and when that one is not OK either it is deleted and a third one is built with
  the opposite shift.  The result is the plateau kept and the shifts of the
  plateaux built, in the order of their construction.
\<close>

definition select_plateau :: "(float \<Rightarrow> plateau) \<Rightarrow> float \<Rightarrow> plateau \<times> float list" where
  "select_plateau tr psd =
     (let pl = tr (Fin 0) in
      if \<not> pl_ok pl then
        (let pl2 = tr psd in
         if \<not> pl_ok pl2 then
           (let pl3 = tr (fneg psd) in
            if \<not> pl_ok pl3 then (pl, [Fin 0, psd, fneg psd])
            else (pl3, [Fin 0, psd, fneg psd]))
         else (pl2, [Fin 0, psd]))
      else (pl, [Fin 0]))"

text \<open>
  \<open>for (int i = 0; search && i < subdiv; i++) if (ds->nextOn... (pix) == 0) search = false;\<close>
  The scanner was released from its clearance, so that each call appends to \<open>pix\<close>
  and returns the new size of \<open>pix\<close>.  \<open>n\<close> is the number of iterations left.
\<close>

fun ds_loop :: "(nat \<Rightarrow> Pt2i list) \<Rightarrow> nat \<Rightarrow> nat \<Rightarrow> Pt2i list \<Rightarrow> bool \<times> Pt2i list" where
  "ds_loop f i 0 pix = (True, pix)"
| "ds_loop f i (Suc n) pix =
     (let pix' = pix @ f i in
      if int (length pix') = 0 then (False, pix') else ds_loop f (Suc i) n pix')"

text \<open>The track that a walk works on, \<open>ct = (exlimit != 0 ? ict : fct)\<close>, and its status.\<close>

definition get_ct :: "int \<Rightarrow> det \<Rightarrow> ctrack option" where
  "get_ct exlimit d = (if exlimit \<noteq> 0 then ict d else fct d)"

definition set_ct :: "int \<Rightarrow> ctrack \<Rightarrow> det \<Rightarrow> det" where
  "set_ct exlimit t d = (if exlimit \<noteq> 0 then d\<lparr>ict := Some t\<rparr> else d\<lparr>fct := Some t\<rparr>)"

definition set_status :: "int \<Rightarrow> result \<Rightarrow> det \<Rightarrow> det" where
  "set_status exlimit r d = (if exlimit \<noteq> 0 then d\<lparr>istatus := r\<rparr> else d\<lparr>fstatus := r\<rparr>)"

definition get_status :: "int \<Rightarrow> det \<Rightarrow> result" where
  "get_status exlimit d = (if exlimit \<noteq> 0 then istatus d else fstatus d)"

text \<open>
  The acceptance of the former plateaux:
  \<open>for (i = 1; i < confdist; i++) { locnum = (num < 0 ? num + i : num - i);
  lpl = ct->plateau (locnum); if (lpl->contains (c1 + dc * i)) ct->accept (locnum); }\<close>.
  A null \<open>lpl\<close> is a null dereference, \<open>None\<close> here.
\<close>

fun accept_former :: "env \<Rightarrow> int \<Rightarrow> float \<Rightarrow> float \<Rightarrow> int list \<Rightarrow> ctrack \<Rightarrow> ctrack option" where
  "accept_former e n c1 dc [] ct = Some ct"
| "accept_former e n c1 dc (i # is) ct =
     (let locnum = (if n < 0 then n + i else n - i) in
      case ct_plateau ct locnum of
        None \<Rightarrow> None
      | Some lpl \<Rightarrow>
          accept_former e n c1 dc is
            (if pl_contains e lpl (fadd c1 (fmul dc (fint i))) then ct_accept ct locnum else ct))"

text \<open>
  The end of the body of the loop: "Conditionally accepts the plateau and former
  consistent ones", and \<open>num += (onright ? -1 : 1)\<close>.
\<close>

definition accept_step :: "env \<Rightarrow> bool \<Rightarrow> int \<Rightarrow> plateau \<Rightarrow> ctrack \<Rightarrow> walk \<Rightarrow> walk option" where
  "accept_step e onright exlimit pl ct w =
     (let step = (if onright then - 1 else 1) in
      if pl_ok pl \<and> reliable pl then
        (let ct1 = ct_accept ct (num w);
             c1 = estimatedCenter pl in
         case ct_plateau ct1 (if num w < 0 then num w + confdist w else num w - confdist w) of
           None \<Rightarrow> None
         | Some lpl \<Rightarrow>
            (let dc = fdiv (fsub (estimatedCenter lpl) c1) (fint (confdist w)) in
             case accept_former e (num w) c1 dc (map int [1..<nat (confdist w)]) ct1 of
               None \<Rightarrow> None
             | Some ct2 \<Rightarrow>
                 Some (w\<lparr>confdist := 1, num := num w + step,
                         wdet := set_ct exlimit ct2 (wdet w)\<rparr>)))
      else Some (w\<lparr>confdist := confdist w + 1, num := num w + step,
                   wdet := set_ct exlimit ct (wdet w)\<rparr>))"

text \<open>
  "Ends tracking after a given amount of failures": the new values of \<open>nbfail\<close> and
  \<open>search\<close>.
\<close>

definition fail_step :: "det \<Rightarrow> plateau \<Rightarrow> int \<times> bool \<Rightarrow> int \<times> bool" where
  "fail_step d pl ns =
     (if pl_ok pl then (0, snd ns)
      else if density_insensitive d \<or> hasEnoughPoints pl
      then (fst ns + 1, (if fst ns + 1 \<ge> plateau_lack_tolerance d then False else snd ns))
      else ns)"

text \<open>
  "Manages start bounds setting": the track, the detector and \<open>search\<close> after
  \<open>if (search && initial_unbounded) ...\<close>.
\<close>

definition bounds_step :: "int \<Rightarrow> int \<Rightarrow> plateau \<Rightarrow> ctrack \<times> det \<times> bool \<Rightarrow> ctrack \<times> det \<times> bool" where
  "bounds_step exlimit n pl cds =
     (case cds of (ct, d, srch) \<Rightarrow>
        if srch \<and> initial_unbounded d then
          (if pl_bounded pl \<and> isAccepted pl
           then (ct, d\<lparr>initial_unbounded := False, initial_refs := internalStart pl,
                       initial_refe := internalEnd pl\<rparr>, srch)
           else if n = NOBOUNDS_TOLERANCE \<or> n = - NOBOUNDS_TOLERANCE
           then (ct\<lparr>ct_status := RESULT_FAIL_NO_BOUNDS\<rparr>,
                 set_status exlimit RESULT_FAIL_NO_BOUNDS d, False)
           else (ct, d, srch))
        else (ct, d, srch))"

text \<open>
  The first half of the body of \<open>while (search && num != exlimit)\<close>, for the walk
  in the state \<open>w\<close>: the pixels of the scan with the value of \<open>search\<close> after the
  calls of the scanners, the points collected with the new value of \<open>out_count\<close>,
  the plateau kept among the candidates, and \<open>nbfail\<close> and \<open>search\<close> after the
  count of the failures.
\<close>

definition walk_scan :: "env \<Rightarrow> walk \<Rightarrow> bool \<times> Pt2i list" where
  "walk_scan e w =
     (if disp_next e w = [] then (False, [])
      else ds_loop (ds_next e w) 0 (nat (subdiv (wdet w))) [])"

definition walk_points :: "env \<Rightarrow> geom \<Rightarrow> walk \<Rightarrow> Pt2f list \<times> int" where
  "walk_points e g w =
     collect (collectPoints e) (fst g) (fst (snd g)) (snd (snd g)) (snd (walk_scan e w))
       ([], out_count (wdet w))"

definition walk_plateau :: "env \<Rightarrow> geom \<Rightarrow> walk \<Rightarrow> plateau" where
  "walk_plateau e g w =
     (let po = walk_points e g w
      in fst (select_plateau (plateau_track e (w\<lparr>wdet := (wdet w)\<lparr>out_count := snd po\<rparr>\<rparr>) (fst po))
                (plateauSearchDistance e)))"

definition walk_lacks :: "env \<Rightarrow> geom \<Rightarrow> walk \<Rightarrow> int \<times> bool" where
  "walk_lacks e g w =
     fail_step ((wdet w)\<lparr>out_count := snd (walk_points e g w)\<rparr>) (walk_plateau e g w)
       (nbfail w, fst (walk_scan e w))"

text \<open>
  The body of the loop.  The update of the reference pattern \<open>refs\<close>, \<open>refe\<close>,
  \<open>refh\<close> is not part of the state: it reaches only the next calls of \<open>bindTo\<close>
  and of \<open>Plateau::track\<close>, which the environment answers.  A null track is a null
  dereference.
\<close>

definition walk_body :: "env \<Rightarrow> bool \<Rightarrow> int \<Rightarrow> geom \<Rightarrow> walk \<Rightarrow> walk option" where
  "walk_body e onright exlimit g w =
     (if snd (walk_scan e w) = []
      then Some (w\<lparr>search := False, num := num w + (if onright then - 1 else 1)\<rparr>)
      else
        (case get_ct exlimit (wdet w) of
           None \<Rightarrow> None
         | Some ct \<Rightarrow>
            (let d1 = (wdet w)\<lparr>out_count := snd (walk_points e g w)\<rparr>;
                 pl = walk_plateau e g w;
                 ct1 = ct_add onright pl ct;
                 ns = walk_lacks e g w;
                 cds = bounds_step exlimit (num w) pl (ct1, d1, snd ns)
             in accept_step e onright exlimit pl (fst cds)
                  (w\<lparr>search := snd (snd cds), nbfail := fst ns, wdet := fst (snd cds)\<rparr>))))"

text \<open>
  The loop.  Nothing bounds it but the scans that leave the raster and the
  plateaux that fail, which are answers of the environment: not returning is the
  value \<open>None\<close>.
\<close>

partial_function (option) walk_loop ::
  "env \<Rightarrow> bool \<Rightarrow> int \<Rightarrow> geom \<Rightarrow> walk \<Rightarrow> walk option" where
  "walk_loop e onright exlimit g w =
     (if search w \<and> num w \<noteq> exlimit
      then Option.bind (walk_body e onright exlimit g w) (walk_loop e onright exlimit g)
      else Some w)"

declare walk_loop.simps [code]

text \<open>
  \<open>track (onright, reversed, exlimit, ds, disp, p1f, p12, l12, refs, refe, refh)\<close>.
  \<open>reversed\<close> only tells which of \<open>nextOnRight\<close> and \<open>nextOnLeft\<close> is called.
  \<open>walk_start\<close> is the state of the walk when the loop is entered, with \<open>exlimit\<close>
  already negated for the right side.
\<close>

definition walk_start :: "bool \<Rightarrow> int \<Rightarrow> ctrack \<Rightarrow> det \<Rightarrow> walk" where
  "walk_start onright exlimit ct d =
     \<lparr>search = True, nbfail = 0, num = (if onright then - 1 else 1), confdist = 1,
      wdet = set_ct exlimit (ct_clear onright ct) d\<rparr>"

definition track :: "env \<Rightarrow> bool \<Rightarrow> int \<Rightarrow> geom \<Rightarrow> det \<Rightarrow> det option" where
  "track e onright exlimit0 g d =
     (let exlimit = (if onright then - exlimit0 else exlimit0) in
      case get_ct exlimit d of
        None \<Rightarrow> None
      | Some ct \<Rightarrow>
          map_option wdet (walk_loop e onright exlimit g (walk_start onright exlimit ct d)))"

subsection \<open>The central plateau in automatic mode\<close>

text \<open>
  In \<open>detect ()\<close>: the table \<open>tests\<close>, with \<open>tests[2 * i] = d * (i + 1)\<close> and
  \<open>tests[2 * i + 1] = - d * (i + 1)\<close> for \<open>i < NB_SIDE_TRIALS\<close>, where \<open>d\<close> is
  \<open>firstPlateauSearchDistance\<close>; then the trial of shift 0 and the loop over the
  tests, which keeps a plateau \<open>cpl\<close> and the flag \<open>found\<close>.
\<close>

definition side_tests :: "float \<Rightarrow> float list" where
  "side_tests d =
     concat (map (\<lambda>i. [fmul d (fint (int i + 1)), fmul (fneg d) (fint (int i + 1))])
               [0..<NB_SIDE_TRIALS])"

fun auto_trials ::
  "(float \<Rightarrow> plateau \<times> bool) \<Rightarrow> (plateau \<Rightarrow> plateau \<Rightarrow> bool) \<Rightarrow> float list \<Rightarrow> plateau \<times> bool
     \<Rightarrow> plateau \<times> bool" where
  "auto_trials tr thiner [] acc = acc"
| "auto_trials tr thiner (t # ts) acc =
     (let cpl2 = fst (tr t); success = snd (tr t) in
      auto_trials tr thiner ts
        ((if success \<and> thiner cpl2 (fst acc) then cpl2 else fst acc),
         (if success then True else snd acc)))"

definition auto_central :: "env \<Rightarrow> det \<Rightarrow> Pt2f list \<Rightarrow> float \<Rightarrow> plateau \<times> bool" where
  "auto_central e d cpts l12 =
     auto_trials (\<lambda>t. auto_track e d cpts t l12) (thinerThan e)
       (side_tests (firstPlateauSearchDistance e)) (auto_track e d cpts (Fin 0) l12)"

subsection \<open>detect\<close>

text \<open>
  Modelled from the spec: \<open>getInputStroke (p1, p2, initial)\<close> (declared in
  ctrackdetector.h, which is not among the sources) gives the initial stroke
  \<open>ip1\<close>, \<open>ip2\<close> when \<open>initial\<close> is set and the final stroke \<open>fp1\<close>, \<open>fp2\<close>
  otherwise.
\<close>

definition getInputStroke :: "det \<Rightarrow> bool \<Rightarrow> Pt2i \<times> Pt2i" where
  "getInputStroke d initial = (if initial then (ip1 d, ip2 d) else (fp1 d, fp2 d))"

definition stroke_geometry :: "det \<Rightarrow> bool \<Rightarrow> geom" where
  "stroke_geometry d initial =
     (let p1 = fst (getInputStroke d initial); p2 = snd (getInputStroke d initial);
          p12 = stroke_p12 (det_csize d) p1 p2
      in (stroke_p1f (det_csize d) p1, p12, stroke_l12 p12))"

text \<open>
  The central plateau of \<open>detect (exlimit)\<close>: a first detection and, when it fails
  with an optimal height, a second one with that height; "keeps solution which is
  better or nearer to optimal width".
\<close>

definition fabs_diff :: "float \<Rightarrow> float \<Rightarrow> float" where
  "fabs_diff a b = (let dw = fsub a b in if flt dw (Fin 0) then fneg dw else dw)"

definition central_plateau :: "env \<Rightarrow> det \<Rightarrow> Pt2f list \<Rightarrow> plateau \<times> bool" where
  "central_plateau e d cpts =
     (let cpl = fst (plateau_detect e d cpts); success = snd (plateau_detect e d cpts) in
      if \<not> success \<and> \<not> noOptimalHeight cpl then
        (let cpl2 = fst (plateau_detect2 e d cpts (getMinHeight cpl));
             success2 = snd (plateau_detect2 e d cpts (getMinHeight cpl)) in
         if success2 then
           (if pl_under_used cpl
               \<and> fle (fabs_diff (estimatedWidth cpl) (startLength e))
                      (fabs_diff (estimatedWidth cpl2) (startLength e))
            then (acceptResult e cpl, True) else (cpl2, True))
         else (cpl, False))
      else (cpl, success))"

text \<open>
  The end of \<open>detect (exlimit)\<close> and of \<open>detect ()\<close>: the walk on the right, the walk
  on the left, the second chance of the right side, and the pruning of the tail.
\<close>

definition prune_tail :: "env \<Rightarrow> int \<Rightarrow> det \<Rightarrow> det option" where
  "prune_tail e exlimit d =
     (if tailMinSize e \<noteq> 0 then
        (case get_ct exlimit d of
           None \<Rightarrow> None
         | Some ct \<Rightarrow>
            (let ct1 = fst (prune e ct (tailMinSize e)) in
             if snd (prune e ct (tailMinSize e))
             then Some (set_status exlimit RESULT_FAIL_NO_CONSISTENT_SEQUENCE
                          (set_ct exlimit (ct1\<lparr>ct_status := RESULT_FAIL_NO_CONSISTENT_SEQUENCE\<rparr>) d))
             else Some (set_ct exlimit ct1 d)))
      else Some d)"

definition side_walks :: "env \<Rightarrow> int \<Rightarrow> geom \<Rightarrow> det \<Rightarrow> det option" where
  "side_walks e exlimit g d =
     (case track e True exlimit g d of
        None \<Rightarrow> None
      | Some d1 \<Rightarrow>
         (case track e False exlimit g d1 of
            None \<Rightarrow> None
          | Some d2 \<Rightarrow>
             (case (if initial_unbounded d1 \<and> \<not> initial_unbounded d2
                    then track e True exlimit g d2 else Some d2) of
                None \<Rightarrow> None
              | Some d3 \<Rightarrow> prune_tail e exlimit d3)))"

text \<open>
  What \<open>detect (exlimit)\<close> and \<open>detect ()\<close> do with the central plateau \<open>cpl\<close> and
  the flag \<open>success\<close> (\<open>found\<close> in \<open>detect ()\<close>), in the same words but for the track
  and the status, which are the final ones in \<open>detect ()\<close> (\<open>exlimit = 0\<close>): the
  track starts with \<open>cpl\<close>; without success the status is \<open>NO_CENTRAL_PLATEAU\<close>
  and the function returns; otherwise the plateau is accepted, the reference
  pattern is set and the sides are walked.
\<close>

definition central_walks :: "env \<Rightarrow> int \<Rightarrow> geom \<Rightarrow> det \<Rightarrow> plateau \<times> bool \<Rightarrow> det option" where
  "central_walks e exlimit g d1 cs =
     (let ct1 = ct_start (fst cs) ct_new
      in if \<not> snd cs
         then Some (set_status exlimit RESULT_FAIL_NO_CENTRAL_PLATEAU
                      (set_ct exlimit (ct1\<lparr>ct_status := RESULT_FAIL_NO_CENTRAL_PLATEAU\<rparr>) d1))
         else
           (let d2 = set_ct exlimit (ct_accept ct1 0) d1;
                d3 = (if pl_bounded (fst cs) then d2\<lparr>initial_unbounded := False\<rparr> else d2);
                d4 = d3\<lparr>initial_refs := internalStart (fst cs),
                         initial_refe := internalEnd (fst cs),
                         initial_refh := getMinHeight (fst cs)\<rparr>
            in side_walks e exlimit g d4))"

text \<open>\<open>detect (int exlimit)\<close>.\<close>

definition detect_int :: "env \<Rightarrow> int \<Rightarrow> det \<Rightarrow> det option" where
  "detect_int e exlimit d =
     (let g = stroke_geometry d (exlimit \<noteq> 0);
          pix = central_scan e d (exlimit \<noteq> 0)
      in if pix = [] then Some (set_status exlimit RESULT_FAIL_NO_AVAILABLE_SCAN d)
         else
           (let po = collect (collectPoints e) (fst g) (fst (snd g)) (snd (snd g)) pix
                       ([], out_count d);
                d1 = set_ct exlimit ct_new (d\<lparr>out_count := snd po\<rparr>)
            in central_walks e exlimit g d1 (central_plateau e d1 (fst po))))"

text \<open>
  \<open>detect ()\<close>, the detection of the automatic mode.  It calls
  \<open>getInputStroke (p1, p2)\<close> with the default of the third argument; \<open>detect (p1, p2)\<close>
  has set both strokes to \<open>(p1, p2)\<close> by then, and the model reads the final one.
  It works on the final track and status only.
\<close>

definition detect_auto :: "env \<Rightarrow> det \<Rightarrow> det option" where
  "detect_auto e d =
     (let g = stroke_geometry d False;
          pix = central_scan e d False
      in if pix = [] then Some (d\<lparr>fstatus := RESULT_FAIL_NO_AVAILABLE_SCAN\<rparr>)
         else
           (let po = collect (collectPoints e) (fst g) (fst (snd g)) (snd (snd g)) pix
                       ([], out_count d);
                d1 = (d\<lparr>out_count := snd po\<rparr>)\<lparr>fct := Some ct_new\<rparr>
            in central_walks e 0 g d1 (auto_central e d1 (fst po) (snd (snd g)))))"

text \<open>
  In \<open>detect (p1, p2)\<close>, after the initial detection, "aligns input stroke
  orthogonally to detected carriage track".  \<open>lshift\<close> is the shift between two
  scans, one of eight cases on the direction of the stroke.
\<close>

definition lshift :: "float \<Rightarrow> Vr2f \<Rightarrow> Vr2f" where
  "lshift cs p12 =
     (let x = xp2 p12; y = yp2 p12;
          fact = fdiv cs (fadd (fmul x x) (fmul y y));
          xx = fmul x x; xy = fmul x y; yy = fmul y y
      in if flt (Fin 0) x then
           (if flt (Fin 0) y then
              (if flt y x then \<lparr>xp2 = fmul (fneg xy) fact, yp2 = fmul xx fact\<rparr>
               else \<lparr>xp2 = fmul (fneg yy) fact, yp2 = fmul xy fact\<rparr>)
            else
              (if flt (fneg y) x then \<lparr>xp2 = fmul (fneg xy) fact, yp2 = fmul xx fact\<rparr>
               else \<lparr>xp2 = fmul yy fact, yp2 = fmul (fneg xy) fact\<rparr>))
         else
           (if flt (Fin 0) y then
              (if flt y (fneg x) then \<lparr>xp2 = fmul xy fact, yp2 = fmul (fneg xx) fact\<rparr>
               else \<lparr>xp2 = fmul (fneg yy) fact, yp2 = fmul xy fact\<rparr>)
            else
              (if flt x y then \<lparr>xp2 = fmul xy fact, yp2 = fmul (fneg xx) fact\<rparr>
               else \<lparr>xp2 = fmul yy fact, yp2 = fmul (fneg xy) fact\<rparr>)))"

text \<open>
  The vector \<open>pc\<close> of the centres of the plateaux: the central plateau, then for
  \<open>i\<close> from 1 to \<open>initial_track_extent - 1\<close> the plateau \<open>i\<close> and the plateau \<open>-i\<close>
  when the track has them and they are reliable, with
  \<open>rplc = (rpl->internalEnd () + rpl->internalStart ()) / (2 * l12)\<close>.
\<close>

definition rplc :: "float \<Rightarrow> plateau \<Rightarrow> float" where
  "rplc l12 rpl = fdiv (fadd (internalEnd rpl) (internalStart rpl)) (fmul (fint 2) l12)"

definition pc_side :: "geom \<Rightarrow> Vr2f \<Rightarrow> ctrack \<Rightarrow> int \<Rightarrow> bool \<Rightarrow> Pt2f list" where
  "pc_side g ls t i left =
     (case ct_plateau t (if left then i else - i) of
        None \<Rightarrow> []
      | Some rpl \<Rightarrow>
          if reliable rpl then
            (let p1f = fst g; p12 = fst (snd g); c = rplc (snd (snd g)) rpl;
                 sx = fmul (fint i) (xp2 ls); sy = fmul (fint i) (yp2 ls)
             in [\<lparr>xp2 = fadd (if left then fadd (xp2 p1f) sx else fsub (xp2 p1f) sx)
                              (fmul (xp2 p12) c),
                   yp2 = fadd (if left then fadd (yp2 p1f) sy else fsub (yp2 p1f) sy)
                              (fmul (yp2 p12) c)\<rparr>])
          else [])"

definition pc_points :: "geom \<Rightarrow> Vr2f \<Rightarrow> ctrack \<Rightarrow> plateau \<Rightarrow> int \<Rightarrow> Pt2f list" where
  "pc_points g ls t rpl0 ext =
     \<lparr>xp2 = fadd (xp2 (fst g)) (fmul (xp2 (fst (snd g))) (rplc (snd (snd g)) rpl0)),
      yp2 = fadd (yp2 (fst g)) (fmul (yp2 (fst (snd g))) (rplc (snd (snd g)) rpl0))\<rparr>
     # concat (map (\<lambda>i. pc_side g ls t (int i) True @ pc_side g ls t (int i) False)
                 [1..<nat ext])"

text \<open>
  \<open>alignInput (pts)\<close>.  A first loop over the points after the first one sums the
  coordinates and takes their bounds; a second loop, from the last point back to
  the first, sums the squares.  The line fitted gives the new final stroke, whose
  coordinates are converted to \<open>int\<close>.  (\<open>den = sqrt (den)\<close> and the vector \<open>p12\<close>
  of the last line are not read afterwards.)  An empty vector is read out of its
  bounds, \<open>None\<close> here.
\<close>

record expectation =
  ex_xm :: float
  ex_ym :: float
  ex_xmin :: float
  ex_xmax :: float
  ex_ymin :: float
  ex_ymax :: float

definition expect_step :: "expectation \<Rightarrow> Pt2f \<Rightarrow> expectation" where
  "expect_step s p =
     \<lparr>ex_xm = fadd (ex_xm s) (xp2 p), ex_ym = fadd (ex_ym s) (yp2 p),
      ex_xmin = (if flt (xp2 p) (ex_xmin s) then xp2 p else ex_xmin s),
      ex_xmax = (if \<not> flt (xp2 p) (ex_xmin s) \<and> flt (ex_xmax s) (xp2 p) then xp2 p
                 else ex_xmax s),
      ex_ymin = (if flt (yp2 p) (ex_ymin s) then yp2 p else ex_ymin s),
      ex_ymax = (if \<not> flt (yp2 p) (ex_ymin s) \<and> flt (ex_ymax s) (yp2 p) then yp2 p
                 else ex_ymax s)\<rparr>"

definition variance_step :: "float \<Rightarrow> float \<Rightarrow> float \<times> float \<times> float \<Rightarrow> Pt2f \<Rightarrow> float \<times> float \<times> float" where
  "variance_step xm ym v p =
     (fadd (fst v) (fmul (fsub (xp2 p) xm) (fsub (xp2 p) xm)),
      fadd (fst (snd v)) (fmul (fsub (yp2 p) ym) (fsub (yp2 p) ym)),
      fadd (snd (snd v)) (fmul (fsub (xp2 p) xm) (fsub (yp2 p) ym)))"

definition alignInput :: "env \<Rightarrow> det \<Rightarrow> Pt2f list \<Rightarrow> (Pt2i \<times> Pt2i) option" where
  "alignInput e d pts =
     (case pts of
        [] \<Rightarrow> None
      | p0 # ps \<Rightarrow>
         (let s = foldl expect_step
                    \<lparr>ex_xm = xp2 p0, ex_ym = yp2 p0, ex_xmin = xp2 p0, ex_xmax = xp2 p0,
                     ex_ymin = yp2 p0, ex_ymax = yp2 p0\<rparr> ps;
              n = fint (int (length pts));
              xm = fdiv (ex_xm s) n;
              ym = fdiv (ex_ym s) n;
              v = foldl (variance_step xm ym) (Fin 0, Fin 0, Fin 0) (rev pts);
              xv = fdiv (fst v) n;
              yv = fdiv (fst (snd v)) n;
              xyv = fdiv (snd (snd v)) n;
              wide = flt (fsub (ex_ymax s) (ex_ymin s)) (fsub (ex_xmax s) (ex_xmin s));
              a = (if wide then fdiv xyv xv else Fin 1);
              b = (if wide then Fin 1 else fdiv xyv yv);
              c = (if wide then fsub (fmul a xm) ym else fsub xm (fmul b ym));
              dd = fadd (fmul b (xp2 p0)) (fmul a (yp2 p0));
              den = fadd (fmul a a) (fmul b b);
              x = fdiv (fadd (fmul a c) (fmul b dd)) den;
              y = fdiv (fsub (fmul a dd) (fmul b c)) den;
              dir = (if flt (fsub (fmul a (fint (fst (ip2 d) - fst (ip1 d))))
                                  (fmul b (fint (snd (ip2 d) - snd (ip1 d))))) (Fin 0)
                     then - 1 else 1);
              len = fmul (CT_MAX_WIDTH e) (fint dir);
              cs = det_csize d
          in case ftrunc (fdiv (fsub x (fmul a len)) cs) of
               None \<Rightarrow> None
             | Some x1 \<Rightarrow>
                (case ftrunc (fdiv (fadd y (fmul b len)) cs) of
                   None \<Rightarrow> None
                 | Some y1 \<Rightarrow>
                    (case ftrunc (fdiv (fadd x (fmul a len)) cs) of
                       None \<Rightarrow> None
                     | Some x2 \<Rightarrow>
                        (case ftrunc (fdiv (fsub y (fmul b len)) cs) of
                           None \<Rightarrow> None
                         | Some y2 \<Rightarrow> Some ((x1, y1), (x2, y2)))))))"

text \<open>
  The alignment: when an initial track exists and has a central plateau, and
  \<open>pc\<close> holds more than \<open>initial_track_extent\<close> points, the final stroke is
  aligned and the final detection, \<open>detect (0)\<close>, runs.  The stroke read here is
  the one given to \<open>detect (p1, p2)\<close>, which is the initial one.
\<close>

definition realign :: "env \<Rightarrow> det \<Rightarrow> det option" where
  "realign e d =
     (case ict d of
        None \<Rightarrow> Some d
      | Some t \<Rightarrow>
         if istatus d \<noteq> RESULT_FAIL_NO_CENTRAL_PLATEAU then
           (case ct_plateau t 0 of
              None \<Rightarrow> None
            | Some rpl \<Rightarrow>
               (let g = stroke_geometry d True;
                    pc = pc_points g (lshift (det_csize d) (fst (snd g))) t rpl
                           (initial_track_extent d)
                in if int (length pc) > initial_track_extent d
                   then (case alignInput e d pc of
                           None \<Rightarrow> None
                         | Some st \<Rightarrow> detect_int e 0 (d\<lparr>fp1 := fst st, fp2 := snd st\<rparr>))
                   else Some d))
         else Some d)"

text \<open>
  The end of \<open>detect (p1, p2)\<close>: the two tests of the global pruning,
  \<open>shift_length_pruning && fct->relativeShiftLength () > max_shift_length\<close> and
  \<open>density_pruning && fct->nbHoles () * 100 > fct->spread () * (100 - min_density)\<close>,
  and the value returned with the detector.
\<close>

definition too_hectic :: "env \<Rightarrow> det \<Rightarrow> ctrack \<Rightarrow> bool" where
  "too_hectic e d t = (shift_length_pruning d \<and> flt (max_shift_length d) (relativeShiftLength e t))"

definition too_sparse :: "env \<Rightarrow> det \<Rightarrow> ctrack \<Rightarrow> bool" where
  "too_sparse e d t = (density_pruning d \<and> nbHoles e t * 100 > spread e t * (100 - min_density d))"

definition finish :: "env \<Rightarrow> det \<Rightarrow> ctrack option \<times> det" where
  "finish e d =
     (case fct d of
        None \<Rightarrow> (None, d)
      | Some t \<Rightarrow>
         if fstatus d = RESULT_FAIL_NO_CONSISTENT_SEQUENCE then (None, d)
         else if too_hectic e d t
         then (None, d\<lparr>fct := Some (t\<lparr>ct_status := RESULT_FAIL_TOO_HECTIC_PLATEAUX\<rparr>),
                       fstatus := RESULT_FAIL_TOO_HECTIC_PLATEAUX\<rparr>)
         else if too_sparse e d t
         then (None, d\<lparr>fct := Some (t\<lparr>ct_status := RESULT_FAIL_TOO_SPARSE_PLATEAUX\<rparr>),
                       fstatus := RESULT_FAIL_TOO_SPARSE_PLATEAUX\<rparr>)
         else (Some t, d))"

definition clear :: "det \<Rightarrow> det" where
  "clear d = d\<lparr>fct := None, fstatus := RESULT_NONE, ict := None, istatus := RESULT_NONE\<rparr>"

text \<open>
  \<open>detect (p1, p2)\<close>: the track returned (\<open>None\<close> is \<open>NULL\<close>) and the detector.
  \<open>stroke_input\<close> is the detector once the former detection is cleared and the
  strokes are set; \<open>detected\<close> is the detector after the trials and the alignment,
  when the global pruning starts; \<open>detection\<close> is all that follows the check of
  the stroke.
\<close>

definition stroke_input :: "det \<Rightarrow> Pt2i \<Rightarrow> Pt2i \<Rightarrow> det" where
  "stroke_input d p1 p2 = (clear d)\<lparr>ip1 := p1, ip2 := p2, fp1 := p1, fp2 := p2\<rparr>"

definition detected :: "env \<Rightarrow> det \<Rightarrow> det option" where
  "detected e d0 =
     (case (if auto_p d0 then detect_auto e d0 else detect_int e (initial_track_extent d0) d0) of
        None \<Rightarrow> None
      | Some d1 \<Rightarrow> realign e d1)"

definition detection :: "env \<Rightarrow> det \<Rightarrow> (ctrack option \<times> det) option" where
  "detection e d0 = map_option (finish e) (detected e d0)"

definition detect :: "env \<Rightarrow> det \<Rightarrow> Pt2i \<Rightarrow> Pt2i \<Rightarrow> (ctrack option \<times> det) option" where
  "detect e d p1 p2 =
     (let d0 = stroke_input d p1 p2 in
      if too_narrow (det_csize d0) p1 p2
      then Some (None, d0\<lparr>fstatus := RESULT_FAIL_TOO_NARROW_INPUT,
                         istatus := (if initial_track_extent d0 \<noteq> 0
                                     then RESULT_FAIL_TOO_NARROW_INPUT else istatus d0)\<rparr>)
      else detection e d0)"

subsection \<open>A detector and environments to run it\<close>

text \<open>
  The detector as its constructor leaves it (\<open>1.65f\<close> is the binary32 value
  \<open>13841203 / 2 ^ 23\<close>), with cells of one metre and no subdivision of the cells
  (\<open>setPointsGrid\<close>); and the detector as \<open>AmrelTool::addTrackDetector\<close> sets it:
  a tolerance of 5 lacks, a maximal shift length of \<open>0.5f\<close>, the initial detection
  switched off (taken to be \<open>initial_track_extent = 0\<close>: \<open>switchInitialization\<close> is
  declared in the header, which is not among the sources) and the automatic mode.
\<close>

definition det_new :: det where
  "det_new = \<lparr>auto_p = False, initial_track_extent = 6, plateau_lack_tolerance = 11,
     density_insensitive = False, density_pruning = True, min_density = 60,
     shift_length_pruning = True, max_shift_length = Fin (13841203 / 8388608), det_csize = Fin 1,
     subdiv = 1, ip1 = (0, 0), ip2 = (0, 0), fp1 = (0, 0), fp2 = (0, 0), fct = None,
     fstatus = RESULT_NONE, ict = None, istatus = RESULT_NONE, initial_unbounded = True,
     initial_refs = Fin 0, initial_refe = Fin 0, initial_refh = Fin 0, out_count = 0\<rparr>"

definition det_tool :: det where
  "det_tool = det_new\<lparr>auto_p := True, initial_track_extent := 0, plateau_lack_tolerance := 5,
     max_shift_length := Fin (1 / 2)\<rparr>"

text \<open>
  Two plateaux: one that is found, three metres wide, reliable but without
  bounds, and one that is not found, one metre wide.
\<close>

definition pl_found :: plateau where
  "pl_found = \<lparr>pl_ok = True, pl_under_used = False, noOptimalHeight = False,
     hasEnoughPoints = True, pl_bounded = False, isAccepted = False, reliable = True,
     estimatedCenter = Fin 3, estimatedWidth = Fin 3, internalStart = Fin (3 / 2),
     internalEnd = Fin (9 / 2), getMinHeight = Fin 0\<rparr>"

definition pl_failed :: plateau where
  "pl_failed = \<lparr>pl_ok = False, pl_under_used = False, noOptimalHeight = True,
     hasEnoughPoints = True, pl_bounded = False, isAccepted = False, reliable = False,
     estimatedCenter = Fin 3, estimatedWidth = Fin 1, internalStart = Fin (5 / 2),
     internalEnd = Fin (7 / 2), getMinHeight = Fin 0\<rparr>"

text \<open>
  An environment in which no scan meets the raster, and one in which every scan
  has a pixel, every tile is loaded and empty, and every plateau is \<open>pl_found\<close>.
  A plateau is thinner than another when its estimated width is smaller.
  \<open>CarriageTrack::MAX_WIDTH\<close> is taken to be 6 m.
\<close>

definition env_void :: env where
  "env_void = \<lparr>collectPoints = (\<lambda>px. (True, [])), central_scan = (\<lambda>d i. []),
     disp_next = (\<lambda>w. []), ds_next = (\<lambda>w i. []),
     plateau_detect = (\<lambda>d pts. (pl_failed, False)),
     plateau_detect2 = (\<lambda>d pts h. (pl_failed, False)),
     plateau_track = (\<lambda>w pts sh. pl_failed),
     auto_track = (\<lambda>d pts sh l. (pl_failed, False)),
     thinerThan = (\<lambda>p q. flt (estimatedWidth p) (estimatedWidth q)),
     pl_contains = (\<lambda>p x. True), acceptResult = (\<lambda>p. p), startLength = Fin 3,
     plateauSearchDistance = Fin (1 / 2), firstPlateauSearchDistance = Fin (1 / 2),
     tailMinSize = 0, prune = (\<lambda>t n. (t, False)), relativeShiftLength = (\<lambda>t. Fin 0),
     nbHoles = (\<lambda>t. 0), spread = (\<lambda>t. 1), CT_MAX_WIDTH = Fin 6\<rparr>"

definition env_road :: env where
  "env_road = env_void\<lparr>central_scan := (\<lambda>d i. [(0, 0)]), disp_next := (\<lambda>w. [(0, 0)]),
     ds_next := (\<lambda>w i. [(0, 0)]), plateau_detect := (\<lambda>d pts. (pl_found, True)),
     plateau_track := (\<lambda>w pts sh. pl_found),
     auto_track := (\<lambda>d pts sh l. (pl_found, True))\<rparr>"

text \<open>
  Environments for the runs below.  In \<open>env_thin\<close> the central scan has a pixel,
  the trial of shift 0 of the automatic mode fails on a plateau one metre wide and
  the trial of shift 0.5 succeeds on a plateau three metres wide; in \<open>env_two\<close>
  the trial of shift 0 succeeds on the plateau three metres wide and that of shift
  0.5 on one two metres wide.
\<close>

definition pl_narrow :: plateau where
  "pl_narrow = pl_found\<lparr>estimatedWidth := Fin 2\<rparr>"

definition env_thin :: env where
  "env_thin = env_void\<lparr>central_scan := (\<lambda>d i. [(0, 0)]), auto_track :=
     (\<lambda>d pts sh l. if sh = Fin (1 / 2) then (pl_found, True) else (pl_failed, False))\<rparr>"

definition env_two :: env where
  "env_two = env_void\<lparr>auto_track :=
     (\<lambda>d pts sh l. if sh = Fin 0 then (pl_found, True)
                   else if sh = Fin (1 / 2) then (pl_narrow, True) else (pl_failed, False))\<rparr>"

text \<open>
  A winding road.  The raster holds four scans on the right of the central one and
  three on its left; the plateaux of the scans of even number are centred on 3 m
  and those of odd number on 7 m.

  Modelled from the spec: \<open>relativeShiftLength\<close> and \<open>spread\<close> of \<open>CarriageTrack\<close>
  (carriagetrack.cpp is not among the sources), from the glossary: "Shift length.
  Running sum of \<open>|center(i) - center(i-1)|\<close> along a track; normalised by spread
  gives the relative shift length".  The spread is taken to be the number of the
  plateaux of the track.
\<close>

definition track_plateaux :: "ctrack \<Rightarrow> plateau list" where
  "track_plateaux t =
     rev (ct_right t) @ (case ct_central t of None \<Rightarrow> [] | Some p \<Rightarrow> [p]) @ ct_left t"

fun shift_length :: "float list \<Rightarrow> float" where
  "shift_length (c # c' # cs) = fadd (fabs_diff c' c) (shift_length (c' # cs))"
| "shift_length _ = Fin 0"

definition spec_spread :: "ctrack \<Rightarrow> int" where
  "spec_spread t = int (length (track_plateaux t))"

definition spec_shift :: "ctrack \<Rightarrow> float" where
  "spec_shift t =
     fdiv (shift_length (map estimatedCenter (track_plateaux t))) (fint (spec_spread t))"

definition pl_aside :: plateau where
  "pl_aside = pl_found\<lparr>estimatedCenter := Fin 7\<rparr>"

definition env_winding :: env where
  "env_winding = env_road\<lparr>disp_next := (\<lambda>w. if - 4 \<le> num w \<and> num w \<le> 3 then [(0, 0)] else []),
     plateau_track := (\<lambda>w pts sh. if even (num w) then pl_found else pl_aside),
     relativeShiftLength := spec_shift, spread := spec_spread\<rparr>"

text \<open>
  A road of which a tile is missing.  The raster holds two scans on each side of
  the central one; every scan has the pixels \<open>(0, 0)\<close> and \<open>(1, 0)\<close>; the tile of the
  pixel \<open>(1, 0)\<close> is not loaded and the cell \<open>(0, 0)\<close> holds one point.
\<close>

definition cp_tiles :: "Pt2i \<Rightarrow> bool \<times> Pt3f list" where
  "cp_tiles px =
     (if px = (1, 0) then (False, [])
      else if px = (0, 0) then (True, [\<lparr>xp = Fin (1 / 2), yp = Fin 2, zp = Fin 10\<rparr>])
      else (True, []))"

definition env_gap :: env where
  "env_gap = env_road\<lparr>collectPoints := cp_tiles, central_scan := (\<lambda>d i. [(0, 0), (1, 0)]),
     disp_next := (\<lambda>w. if - 2 \<le> num w \<and> num w \<le> 2 then [(0, 0)] else []),
     ds_next := (\<lambda>w i. [(0, 0), (1, 0)])\<rparr>"

text \<open>The width of a plateau as a real number, to compare the plateaux of the runs.\<close>

definition width_of :: "plateau \<Rightarrow> real" where
  "width_of p = (case estimatedWidth p of Fin x \<Rightarrow> x | _ \<Rightarrow> 0)"

text \<open>
  A detector of a final detection whose track holds an accepted central plateau,
  with the tolerance of the tool; the geometry of the stroke from \<open>(0, 0)\<close> to
  \<open>(0, 7)\<close>; and the answers of three trials of which only the third, of shift
  -0.5, is OK.
\<close>

definition det_central :: det where
  "det_central = det_new\<lparr>initial_track_extent := 0, plateau_lack_tolerance := 5,
     fct := Some (ct_accept (ct_start pl_found ct_new) 0)\<rparr>"

definition geom_ex :: geom where
  "geom_ex = (\<lparr>xp2 = Fin (1 / 2), yp2 = Fin (1 / 2)\<rparr>, \<lparr>xp2 = Fin 0, yp2 = Fin 7\<rparr>, Fin 7)"


subsection \<open>The states of a side walk\<close>

text \<open>
  The plateaux of the side that a walk works on; two tracks of the same shape
  (same status, same numbers of plateaux); the shape of the state of a walk at the
  start of its scan number \<open>k\<close>: the track holds a central plateau and the plateaux
  of the \<open>k - 1\<close> scans before; and the state after \<open>n\<close> turns of the loop, \<open>None\<close>
  when the loop ends before or a turn does not return.
\<close>

definition walk_side :: "bool \<Rightarrow> ctrack \<Rightarrow> plateau list" where
  "walk_side onright t = (if onright then ct_right t else ct_left t)"

definition same_shape :: "ctrack \<Rightarrow> ctrack \<Rightarrow> bool" where
  "same_shape a b =
     (ct_status a = ct_status b \<and> (ct_central a = None) = (ct_central b = None)
      \<and> length (ct_right a) = length (ct_right b) \<and> length (ct_left a) = length (ct_left b))"

definition walk_shape :: "bool \<Rightarrow> int \<Rightarrow> nat \<Rightarrow> walk \<Rightarrow> bool" where
  "walk_shape onright exlimit k w =
     (num w = (if onright then - int k else int k)
      \<and> 1 \<le> confdist w \<and> confdist w \<le> int k
      \<and> (\<exists>ct. get_ct exlimit (wdet w) = Some ct \<and> ct_central ct \<noteq> None
               \<and> Suc (length (walk_side onright ct)) = k))"

fun walk_iter :: "env \<Rightarrow> bool \<Rightarrow> int \<Rightarrow> geom \<Rightarrow> nat \<Rightarrow> walk \<Rightarrow> walk option" where
  "walk_iter e onright exlimit g 0 w = Some w"
| "walk_iter e onright exlimit g (Suc n) w =
     (if search w \<and> num w \<noteq> exlimit
      then Option.bind (walk_body e onright exlimit g w) (walk_iter e onright exlimit g n)
      else None)"

subsection \<open>The detector but for its counter of missing tiles\<close>

text \<open>
  The detector with \<open>out_count\<close> reset; the environment in which every tile is
  loaded and holds the same points; and the environments whose answers do not
  depend on \<open>out_count\<close> (the scanners and the plateaux have no access to it).
\<close>

definition uncounted :: "det \<Rightarrow> det" where
  "uncounted d = d\<lparr>out_count := 0\<rparr>"

definition all_loaded :: "env \<Rightarrow> env" where
  "all_loaded e = e\<lparr>collectPoints := (\<lambda>px. (True, snd (collectPoints e px)))\<rparr>"

definition count_blind :: "env \<Rightarrow> bool" where
  "count_blind e =
     ((\<forall>d k. central_scan e (d\<lparr>out_count := k\<rparr>) = central_scan e d)
      \<and> (\<forall>d k. plateau_detect e (d\<lparr>out_count := k\<rparr>) = plateau_detect e d)
      \<and> (\<forall>d k. plateau_detect2 e (d\<lparr>out_count := k\<rparr>) = plateau_detect2 e d)
      \<and> (\<forall>d k. auto_track e (d\<lparr>out_count := k\<rparr>) = auto_track e d)
      \<and> (\<forall>w k. disp_next e (w\<lparr>wdet := (wdet w)\<lparr>out_count := k\<rparr>\<rparr>) = disp_next e w)
      \<and> (\<forall>w k. ds_next e (w\<lparr>wdet := (wdet w)\<lparr>out_count := k\<rparr>\<rparr>) = ds_next e w)
      \<and> (\<forall>w k. plateau_track e (w\<lparr>wdet := (wdet w)\<lparr>out_count := k\<rparr>\<rparr>) = plateau_track e w))"

text \<open>The floats that are not negative: the sums of squares of the stroke length.\<close>

definition nonneg_float :: "float \<Rightarrow> bool" where
  "nonneg_float f = (f = PInf \<or> (\<exists>r\<ge>0. f = Fin r))"

section \<open>The seeds file (amreltool.cpp)\<close>

text \<open>
  What \<open>saveSeeds\<close> writes, field by field: an \<open>int\<close>, a \<open>float\<close> or a \<open>Pt2i\<close>.
\<close>

datatype item = I32 int | F32 float | P2 Pt2i

text \<open>
  The part of the tool that \<open>saveSeeds\<close> reads: the size of the vector map, the
  cell size, the numbers of columns and rows of tiles that the tile set reports,
  the seeds of each tile (\<open>out_seeds\<close>, an array of vectors of points in which a
  stroke is two successive points), the half-size option of the configuration,
  and whether the output file can be opened.
\<close>

record amrel =
  vm_width :: int
  vm_height :: int
  csize :: float
  columnsOfTiles :: int
  rowsOfTiles :: int
  out_seeds :: "Pt2i list list"
  isHalfSizeSeedsOn :: bool
  is_open :: bool

text \<open>
  Reading an array out of its bounds, or a vector past its end, is undefined
  behaviour in the source and \<open>None\<close> here.  The loop
  \<open>while (it != end) { pt1 = *it++; pt2 = *it++; ... }\<close> reads a vector by pairs,
  and reads past the end of a vector of odd size.
\<close>

definition bucket :: "'a list \<Rightarrow> int \<Rightarrow> 'a option" where
  "bucket bs k = (if 0 \<le> k \<and> k < int (length bs) then Some (bs ! nat k) else None)"

fun stroke_pairs :: "Pt2i list \<Rightarrow> (Pt2i \<times> Pt2i) list option" where
  "stroke_pairs [] = Some []"
| "stroke_pairs [p] = None"
| "stroke_pairs (p1 # p2 # r) = map_option ((#) (p1, p2)) (stroke_pairs r)"

text \<open>\<open>for (int i = 0; i < n; i++) nb += (int) (seeds[i].size ());\<close>\<close>

definition count_seeds :: "Pt2i list list \<Rightarrow> int \<Rightarrow> int option" where
  "count_seeds bs n =
     map_option (\<lambda>ls. sum_list (map (\<lambda>b. int (length b)) ls))
       (those (map (\<lambda>i. bucket bs (int i)) [0..<nat n]))"

text \<open>The two \<open>write\<close> calls of a stroke, and the strokes of the tiles \<open>ks\<close> in turn.\<close>

definition write_strokes :: "(Pt2i \<times> Pt2i) list \<Rightarrow> item list" where
  "write_strokes ps = concat (map (\<lambda>(pt1, pt2). [P2 pt1, P2 pt2]) ps)"

definition write_tiles :: "Pt2i list list \<Rightarrow> int list \<Rightarrow> item list option" where
  "write_tiles bs ks =
     map_option concat
       (those (map (\<lambda>k. Option.bind (bucket bs k)
                            (\<lambda>b. map_option write_strokes (stroke_pairs b))) ks))"

text \<open>
  \<open>cols\<close> and \<open>rows\<close> are the locals \<open>cot\<close> and \<open>rot\<close> of the source.
  The order of the tiles in the file when the seeds are not retiled:
  \<open>k = j * cot + ((j % 2 != 0) ? cot - 1 - i : i)\<close> for \<open>j < rot\<close>, \<open>i < cot\<close>.
\<close>

definition tile_index :: "int \<Rightarrow> int \<Rightarrow> int \<Rightarrow> int" where
  "tile_index cols j i = j * cols + (if j mod 2 \<noteq> 0 then cols - 1 - i else i)"

definition tile_order :: "int \<Rightarrow> int \<Rightarrow> int list" where
  "tile_order cols rows =
     concat (map (\<lambda>j. map (\<lambda>i. tile_index cols (int j) (int i)) [0..<nat cols]) [0..<nat rows])"

text \<open>
  Retiling one stroke in half-size mode: the tile \<open>(kx, ky)\<close> of its middle in the
  grid of half tiles, the doubled end points, and the push into \<open>reseeds\<close>.  The
  state is \<open>reseeds\<close> and the count \<open>outl\<close> of the strokes left out.
\<close>

definition reseed ::
  "int \<Rightarrow> int \<Rightarrow> int \<Rightarrow> int \<Rightarrow> Pt2i \<times> Pt2i \<Rightarrow> Pt2i list list \<times> int \<Rightarrow> (Pt2i list list \<times> int) option" where
  "reseed cols rows tw th st acc =
     (case st of (pt1, pt2) \<Rightarrow> case acc of (rs, outl) \<Rightarrow>
        (case cdiv ((fst pt1 + fst pt2) sdiv 2) tw of
           None \<Rightarrow> None
         | Some kx \<Rightarrow>
            (case cdiv ((snd pt1 + snd pt2) sdiv 2) th of
               None \<Rightarrow> None
             | Some ky \<Rightarrow>
                if kx < 0 \<or> ky < 0 \<or> kx \<ge> 2 * cols \<or> ky \<ge> 2 * rows then Some (rs, outl + 1)
                else
                  (let a1 = (fst pt1 * 2, snd pt1 * 2);
                       a2 = (fst pt2 * 2, snd pt2 * 2);
                       b1 = (if fst a2 < fst a1 then (fst a1 + 1, snd a1) else a1);
                       b2 = (if fst a2 < fst a1 then a2 else (fst a2 + 1, snd a2));
                       c1 = (if snd b2 < snd b1 then (fst b1, snd b1 + 1) else b1);
                       c2 = (if snd b2 < snd b1 then b2 else (fst b2, snd b2 + 1))
                   in case bucket rs (ky * cols * 2 + kx) of
                        None \<Rightarrow> None
                      | Some b \<Rightarrow> Some (rs[nat (ky * cols * 2 + kx) := b @ [c1, c2]], outl)))))"

fun reseed_all ::
  "int \<Rightarrow> int \<Rightarrow> int \<Rightarrow> int \<Rightarrow> (Pt2i \<times> Pt2i) list \<Rightarrow> Pt2i list list \<times> int \<Rightarrow> (Pt2i list list \<times> int) option" where
  "reseed_all cols rows tw th [] acc = Some acc"
| "reseed_all cols rows tw th (st # sts) acc =
     (case reseed cols rows tw th st acc of
        None \<Rightarrow> None
      | Some acc' \<Rightarrow> reseed_all cols rows tw th sts acc')"

text \<open>
  The retiling loops: the tiles are read in the order of \<open>numk\<close>, which counts the
  iterations of \<open>for (j < rot) for (i < cot)\<close>.
\<close>

fun retile ::
  "amrel \<Rightarrow> int \<Rightarrow> int \<Rightarrow> nat list \<Rightarrow> Pt2i list list \<times> int \<Rightarrow> (Pt2i list list \<times> int) option" where
  "retile t tw th [] acc = Some acc"
| "retile t tw th (numk # ks) acc =
     (case Option.bind (bucket (out_seeds t) (int numk)) stroke_pairs of
        None \<Rightarrow> None
      | Some sts \<Rightarrow>
         (case reseed_all (columnsOfTiles t) (rowsOfTiles t) tw th sts acc of
            None \<Rightarrow> None
          | Some acc' \<Rightarrow> retile t tw th ks acc'))"

text \<open>
  \<open>saveSeeds\<close> returns \<open>false\<close> and writes nothing when the file does not open;
  otherwise it returns \<open>true\<close> and the file is the list of the fields written.
\<close>

definition seeds_header :: "amrel \<Rightarrow> item list" where
  "seeds_header t =
     (if isHalfSizeSeedsOn t
      then [I32 (vm_width t * 2), I32 (vm_height t * 2), F32 (fdiv (csize t) (Fin 2)),
            I32 (columnsOfTiles t * 2), I32 (rowsOfTiles t * 2)]
      else [I32 (vm_width t), I32 (vm_height t), F32 (csize t),
            I32 (columnsOfTiles t), I32 (rowsOfTiles t)])"

definition saveSeeds :: "amrel \<Rightarrow> (bool \<times> item list) option" where
  "saveSeeds t =
     (let cols = columnsOfTiles t; rows = rowsOfTiles t in
      if \<not> is_open t then Some (False, [])
      else if isHalfSizeSeedsOn t then
        (case cdiv (vm_width t) (2 * cols) of
           None \<Rightarrow> None
         | Some tw \<Rightarrow>
            (case cdiv (vm_height t) (2 * rows) of
               None \<Rightarrow> None
             | Some th \<Rightarrow>
                if rows * cols * 4 < 0 then None
                else
                  (case retile t tw th [0..<nat rows * nat cols]
                          (replicate (nat (rows * cols * 4)) [], 0) of
                     None \<Rightarrow> None
                   | Some (reseeds, outl) \<Rightarrow>
                      (case count_seeds reseeds (cols * rows * 4) of
                         None \<Rightarrow> None
                       | Some nb \<Rightarrow>
                          (case write_tiles reseeds (map int [0..<nat (rows * 2) * nat (cols * 2)]) of
                             None \<Rightarrow> None
                           | Some body \<Rightarrow> Some (True, seeds_header t @ I32 nb # body))))))
      else
        (case count_seeds (out_seeds t) (cols * rows) of
           None \<Rightarrow> None
         | Some nb \<Rightarrow>
            (case write_tiles (out_seeds t) (tile_order cols rows) of
               None \<Rightarrow> None
             | Some body \<Rightarrow> Some (True, seeds_header t @ I32 nb # body))))"

text \<open>
  A tool with one tile and one seed, the stroke from \<open>(0, 0)\<close> to \<open>(6, 0)\<close>, and a
  tool with two rows of two tiles.
\<close>

definition seeds_ex1 :: amrel where
  "seeds_ex1 = \<lparr>vm_width = 100, vm_height = 100, csize = Fin 1, columnsOfTiles = 1,
     rowsOfTiles = 1, out_seeds = [[(0, 0), (6, 0)]], isHalfSizeSeedsOn = False,
     is_open = True\<rparr>"

definition seeds_ex2 :: amrel where
  "seeds_ex2 = \<lparr>vm_width = 100, vm_height = 100, csize = Fin 1, columnsOfTiles = 2,
     rowsOfTiles = 2,
     out_seeds = [[(0, 0), (6, 0)], [], [(10, 60), (10, 70), (20, 60), (20, 70)], [(80, 80), (80, 90)]],
     isHalfSizeSeedsOn = False, is_open = True\<rparr>"

text \<open>
  A scanner built on the pattern \<open>(1, 0)\<close> with a strip of thickness 3, used to
  evaluate \<open>bindTo\<close>.
\<close>

definition bind_ex :: scanner where
  "bind_ex = \<lparr>xmin = 0, ymin = 0, xmax = 10, ymax = 10, steps = [False], lcx = 0, lcy = 0,
     rcx = 0, rcy = 0, lst2 = 0, rst2 = 0, dla = 1, dlb = 0, dlc1 = 3, dlc2 = 0,
     templ_a = 1, templ_b = 0, templ_nu = 3, clearance = True\<rparr>"

section \<open>Properties of the rounding\<close>

text \<open>
  The value that rounds a real to the nearest integer; the quantum of a real; the
  binary32 values, which rounding leaves as they are; and the rounding of a real
  whose quantum is known.
\<close>

lemma rne_int [simp]: "rne (of_int m) = m"
  by (simp add: rne_def)

lemma rne_nonneg: "0 \<le> y \<Longrightarrow> 0 \<le> rne y"
  by (auto simp: rne_def Let_def)

lemma quantum_up_form:
  "\<exists>i\<le>n. quantum_up n a q = q * 2 ^ i \<and> (i < n \<longrightarrow> a < q * 2 ^ i * 2 ^ 24)
      \<and> (0 < i \<longrightarrow> q * 2 ^ i * 2 ^ 23 \<le> a)"
proof (induction n arbitrary: q)
  case 0
  then show ?case by simp
next
  case (Suc n)
  show ?case
  proof (cases "a < q * 2 ^ 24")
    case True
    then show ?thesis by (intro exI [of _ 0]) simp
  next
    case False
    from Suc [of "2 * q"] obtain i where i: "i \<le> n" "quantum_up n a (2 * q) = 2 * q * 2 ^ i"
      "i < n \<longrightarrow> a < 2 * q * 2 ^ i * 2 ^ 24" "0 < i \<longrightarrow> 2 * q * 2 ^ i * 2 ^ 23 \<le> a" by blast
    have e: "2 * q * 2 ^ i = q * 2 ^ Suc i" by simp
    have lo: "q * 2 ^ Suc i * 2 ^ 23 \<le> a"
    proof (cases "i = 0")
      case True
      with False show ?thesis by simp
    next
      case False
      with i(4) show ?thesis unfolding e by blast
    qed
    have hi: "Suc i < Suc n \<longrightarrow> a < q * 2 ^ Suc i * 2 ^ 24"
      using i(3) unfolding e by simp
    have "quantum_up (Suc n) a q = q * 2 ^ Suc i"
      using False i(2) unfolding e by simp
    with lo hi i(1) show ?thesis
      by (intro exI [of _ "Suc i"]) blast
  qed
qed

lemma ulp_min_pos: "0 < ulp_min"
  by (simp add: ulp_min_def)

lemma quantum32_form:
  "\<exists>i\<le>254. quantum32 a = ulp_min * 2 ^ i \<and> (i < 254 \<longrightarrow> a < ulp_min * 2 ^ i * 2 ^ 24)
      \<and> (0 < i \<longrightarrow> ulp_min * 2 ^ i * 2 ^ 23 \<le> a)"
  unfolding quantum32_def by (rule quantum_up_form)

lemma pow2_less:
  assumes "0 < u" and "u * 2 ^ i * 2 ^ 23 < u * 2 ^ k * (2::real) ^ 24"
  shows "i \<le> k"
proof -
  have "u * (2 ^ i * 2 ^ 23) < u * (2 ^ k * 2 ^ 24)" using assms(2) by (simp only: mult.assoc)
  then have "(2::real) ^ i * 2 ^ 23 < 2 ^ k * 2 ^ 24" using assms(1) by (simp only: mult_less_cancel_left_pos)
  then have "(2::real) ^ (i + 23) < 2 ^ (k + 24)" by (simp only: power_add)
  then have "i + 23 < k + 24" by (simp only: power_strict_increasing_iff one_less_numeral_iff semiring_norm)
  then show ?thesis by simp
qed

lemma quantum32_eq:
  assumes k: "k \<le> 253" and hi: "a < ulp_min * 2 ^ k * 2 ^ 24"
    and lo: "k = 0 \<or> ulp_min * 2 ^ k * 2 ^ 23 \<le> a"
  shows "quantum32 a = ulp_min * 2 ^ k"
proof -
  from quantum32_form [of a] obtain i where i: "i \<le> 254" "quantum32 a = ulp_min * 2 ^ i"
    "i < 254 \<longrightarrow> a < ulp_min * 2 ^ i * 2 ^ 24" "0 < i \<longrightarrow> ulp_min * 2 ^ i * 2 ^ 23 \<le> a" by auto
  have "i \<le> k"
  proof (cases "i = 0")
    case True
    then show ?thesis by simp
  next
    case False
    then have "ulp_min * 2 ^ i * 2 ^ 23 \<le> a" using i(4) by blast
    then have "ulp_min * 2 ^ i * 2 ^ 23 < ulp_min * 2 ^ k * 2 ^ 24" using hi by (rule le_less_trans)
    with ulp_min_pos show ?thesis by (rule pow2_less)
  qed
  moreover have "k \<le> i"
  proof (rule ccontr)
    assume "\<not> k \<le> i"
    then have ik: "i < k" by simp
    then have "i < 254" using k by linarith
    then have a: "a < ulp_min * 2 ^ i * 2 ^ 24" using i(3) by blast
    from ik have "k \<noteq> 0" by simp
    then have "ulp_min * 2 ^ k * 2 ^ 23 \<le> a" using lo by blast
    then have "ulp_min * 2 ^ k * 2 ^ 23 < ulp_min * 2 ^ i * 2 ^ 24" using a by (rule le_less_trans)
    with ulp_min_pos have "k \<le> i" by (rule pow2_less)
    with ik show False by simp
  qed
  ultimately have "i = k" by (rule order_antisym)
  with i(2) show ?thesis by blast
qed


lemma ulp_min_top: "ulp_min * 2 ^ 253 * 2 ^ 24 = 2 ^ 128"
  by (simp add: ulp_min_def)

lemma ulp_min_one: "ulp_min * 2 ^ 149 = 1"
  by (simp add: ulp_min_def)

lemma round32_exact:
  assumes m: "\<bar>m\<bar> < 2 ^ 24" and k: "k \<le> 253"
  shows "round32 (of_int m * (ulp_min * 2 ^ k)) = Fin (of_int m * (ulp_min * 2 ^ k))"
proof -
  let ?q = "ulp_min * 2 ^ k"
  let ?x = "real_of_int m * ?q"
  have qpos: "0 < ?q" using ulp_min_pos by simp
  have ax: "\<bar>?x\<bar> = real_of_int \<bar>m\<bar> * ?q" using ulp_min_pos by (simp add: abs_mult)
  have m': "real_of_int \<bar>m\<bar> < 2 ^ 24" using m by (metis of_int_less_numeral_power_cancel_iff)
  have hi: "\<bar>?x\<bar> < ?q * 2 ^ 24"
    unfolding ax using m' qpos by (simp only: mult.commute [of _ ?q] mult_less_cancel_left_pos)
  from quantum32_form [of "\<bar>?x\<bar>"] obtain i where i: "i \<le> 254" "quantum32 \<bar>?x\<bar> = ulp_min * 2 ^ i"
    "0 < i \<longrightarrow> ulp_min * 2 ^ i * 2 ^ 23 \<le> \<bar>?x\<bar>" by auto
  have ik: "i \<le> k"
  proof (cases "i = 0")
    case True
    then show ?thesis by simp
  next
    case False
    then have "ulp_min * 2 ^ i * 2 ^ 23 \<le> \<bar>?x\<bar>" using i(3) by blast
    then have "ulp_min * 2 ^ i * 2 ^ 23 < ulp_min * 2 ^ k * 2 ^ 24" using hi by (rule le_less_trans)
    with ulp_min_pos show ?thesis by (rule pow2_less)
  qed
  have p: "(2::real) ^ k = 2 ^ (k - i) * 2 ^ i" using ik by (simp flip: power_add)
  have ipos: "ulp_min * 2 ^ i \<noteq> 0" using ulp_min_pos by simp
  have xe: "?x = of_int (m * 2 ^ (k - i)) * (ulp_min * 2 ^ i)"
    unfolding p by simp
  have "real_of_int (m * 2 ^ (k - i)) * (ulp_min * 2 ^ i) / (ulp_min * 2 ^ i) = of_int (m * 2 ^ (k - i))"
    using ipos by (rule nonzero_mult_div_cancel_right)
  then have q: "?x / (ulp_min * 2 ^ i) = of_int (m * 2 ^ (k - i))"
    by (simp only: xe)
  have r: "of_int (rne (?x / (ulp_min * 2 ^ i))) * (ulp_min * 2 ^ i) = ?x"
    unfolding q rne_int by (simp only: xe)
  have "(2::real) ^ k \<le> 2 ^ 253" using k by (intro power_increasing) simp_all
  then have "ulp_min * 2 ^ k \<le> ulp_min * 2 ^ 253"
    using ulp_min_pos by (simp only: mult_le_cancel_left_pos)
  then have "?q * 2 ^ 24 \<le> ulp_min * 2 ^ 253 * 2 ^ 24"
    by (intro mult_right_mono) simp_all
  with hi have "\<bar>?x\<bar> < 2 ^ 128" unfolding ulp_min_top by (rule less_le_trans)
  then have "\<not> 2 ^ 128 \<le> \<bar>?x\<bar>" by (simp only: not_le)
  then show ?thesis
    unfolding round32_def Let_def i(2) r by (simp only: if_False)
qed

lemma round32_int: "\<bar>n\<bar> < 2 ^ 24 \<Longrightarrow> round32 (of_int n) = Fin (of_int n)"
  using round32_exact [of n 149] unfolding ulp_min_one by simp

lemma round32_dyadic:
  assumes "\<bar>n\<bar> < 2 ^ 24" and "j \<le> 149"
  shows "round32 (of_int n / 2 ^ j) = Fin (of_int n / 2 ^ j)"
proof -
  have "(2::real) ^ 149 = 2 ^ (149 - j) * 2 ^ j" using assms(2) by (simp flip: power_add)
  then have "ulp_min * 2 ^ (149 - j) * 2 ^ j = 1" using ulp_min_one by (simp only: mult.assoc)
  then have "ulp_min * 2 ^ (149 - j) = 1 / 2 ^ j" by (simp add: field_simps)
  with round32_exact [OF assms(1), of "149 - j"] show ?thesis by simp
qed


lemma round32_0: "round32 0 = Fin 0"
  using round32_int [of 0] by simp

lemma round32_1: "round32 1 = Fin 1"
  using round32_int [of 1] by simp

lemma round32_numeral:
  "numeral n < (16777216::int) \<Longrightarrow> round32 (numeral n) = Fin (numeral n)"
  using round32_int [of "numeral n"] by simp

lemma round32_neg_numeral:
  "numeral n < (16777216::int) \<Longrightarrow> round32 (- numeral n) = Fin (- numeral n)"
  using round32_int [of "- numeral n"] by simp

lemma round32_halves:
  "round32 (1 / 2) = Fin (1 / 2)"
  "round32 (- (1 / 2)) = Fin (- (1 / 2))"
  "numeral n < (16777216::int) \<Longrightarrow> round32 (numeral n / 2) = Fin (numeral n / 2)"
  "numeral n < (16777216::int) \<Longrightarrow> round32 (- (numeral n / 2)) = Fin (- (numeral n / 2))"
  using round32_dyadic [of 1 1] round32_dyadic [of "- 1" 1]
    round32_dyadic [of "numeral n" 1] round32_dyadic [of "- numeral n" 1] by simp_all

lemmas round32_simps = round32_0 round32_1 round32_numeral round32_neg_numeral round32_halves

lemma round32_normal:
  assumes "k \<le> 253" and "q = ulp_min * 2 ^ k" and "\<bar>x\<bar> < q * 2 ^ 24"
    and "k = 0 \<or> q * 2 ^ 23 \<le> \<bar>x\<bar>"
  shows "round32 x =
     (let r = of_int (rne (x / q)) * q
      in if 2 ^ 128 \<le> \<bar>r\<bar> then (if 0 < x then PInf else NInf) else Fin r)"
proof -
  have "quantum32 \<bar>x\<bar> = q"
    unfolding assms(2) using assms(1,3,4) unfolding assms(2) by (rule quantum32_eq)
  then show ?thesis unfolding round32_def by simp
qed

lemma round32_nonneg:
  assumes "0 \<le> x"
  shows "round32 x = PInf \<or> (\<exists>r\<ge>0. round32 x = Fin r)"
proof -
  from quantum32_form [of "\<bar>x\<bar>"] obtain i where q: "quantum32 \<bar>x\<bar> = ulp_min * 2 ^ i" by auto
  have "0 \<le> x / (ulp_min * 2 ^ i)" using assms ulp_min_pos by simp
  then have "0 \<le> rne (x / (ulp_min * 2 ^ i))" by (rule rne_nonneg)
  then have r: "0 \<le> real_of_int (rne (x / (ulp_min * 2 ^ i))) * (ulp_min * 2 ^ i)"
    using ulp_min_pos by simp
  show ?thesis
  proof (cases "0 < x")
    case True
    with r show ?thesis unfolding round32_def Let_def q by auto
  next
    case False
    with assms have "x = 0" by simp
    then show ?thesis by (simp add: round32_0)
  qed
qed

section \<open>Properties of the detector\<close>

lemmas detect_defs = detect_int_def detect_auto_def central_walks_def
  side_walks_def prune_tail_def track_def walk_start_def walk_body_def walk_scan_def
  walk_points_def walk_plateau_def walk_lacks_def accept_step_def bounds_step_def
  fail_step_def select_plateau_def central_plateau_def stroke_geometry_def getInputStroke_def
  get_ct_def set_ct_def set_status_def ct_new_def ct_start_def ct_accept_def ct_add_def
  ct_clear_def ct_plateau_def side_plateau_def side_accept_def
  stroke_l12_def stroke_p12_def stroke_p1f_def fint_def NOBOUNDS_TOLERANCE_def

text \<open>
  The steps of \<open>detect (p1, p2)\<close> around the trials: without an initial track
  there is no alignment, and a stroke that is not too narrow goes through the
  detection and the global pruning.
\<close>

lemma realign_no_initial: "ict d = None \<Longrightarrow> realign e d = Some d"
  by (simp add: realign_def)

lemma detected_auto:
  "auto_p d0 \<Longrightarrow> detect_auto e d0 = Some d1 \<Longrightarrow> ict d1 = None \<Longrightarrow> detected e d0 = Some d1"
  by (simp add: detected_def realign_no_initial)

lemma detected_final:
  "\<not> auto_p d0 \<Longrightarrow> initial_track_extent d0 = 0 \<Longrightarrow> detect_int e 0 d0 = Some d1
     \<Longrightarrow> ict d1 = None \<Longrightarrow> detected e d0 = Some d1"
  by (simp add: detected_def realign_no_initial)

lemma stroke_input_fields:
  "det_csize (stroke_input d p1 p2) = det_csize d" "auto_p (stroke_input d p1 p2) = auto_p d"
  "initial_track_extent (stroke_input d p1 p2) = initial_track_extent d"
  by (simp_all add: stroke_input_def clear_def)

lemma detect_run:
  "\<not> too_narrow (det_csize d) p1 p2 \<Longrightarrow> detected e (stroke_input d p1 p2) = Some d2
     \<Longrightarrow> detect e d p1 p2 = Some (finish e d2)"
  by (simp add: detect_def Let_def stroke_input_fields detection_def)

lemma sqrt25: "sqrt 25 = 5"
  by (rule real_sqrt_unique) simp_all

lemma sqrt36: "sqrt 36 = 6"
  by (rule real_sqrt_unique) simp_all

lemma sqrt49: "sqrt 49 = 7"
  by (rule real_sqrt_unique) simp_all

lemma length_seven: "stroke_l12 (stroke_p12 (Fin 1) (0, 0) (0, 7)) = Fin 7"
  by (simp add: stroke_l12_def stroke_p12_def fint_def round32_simps sqrt49)

lemma side_tests_list:
  "side_tests d =
     [fmul d (fint 1), fmul (fneg d) (fint 1), fmul d (fint 2), fmul (fneg d) (fint 2),
      fmul d (fint 3), fmul (fneg d) (fint 3), fmul d (fint 4), fmul (fneg d) (fint 4),
      fmul d (fint 5), fmul (fneg d) (fint 5)]"
  by (simp add: side_tests_def NB_SIDE_TRIALS_def upt_rec)

lemma pl_found_fields:
  "pl_ok pl_found" "reliable pl_found" "\<not> pl_bounded pl_found" "\<not> isAccepted pl_found"
  "hasEnoughPoints pl_found" "estimatedCenter pl_found = Fin 3"
  "internalStart pl_found = Fin (3 / 2)" "internalEnd pl_found = Fin (9 / 2)"
  "getMinHeight pl_found = Fin 0"
  by (simp_all add: pl_found_def)

subsection \<open>The length of the input stroke\<close>

text \<open>
  The length computed is never a NaN when the cell size is finite and the
  differences of the coordinates fit an \<open>int\<close>: the conversions are finite, the
  squares and their sum are not negative.
\<close>

lemma rne_near: "\<bar>real_of_int (rne y)\<bar> \<le> \<bar>y\<bar> + 1"
proof -
  have f: "real_of_int \<lfloor>y\<rfloor> \<le> y" "y < real_of_int \<lfloor>y\<rfloor> + 1" by linarith+
  have "rne y = \<lfloor>y\<rfloor> \<or> rne y = \<lfloor>y\<rfloor> + 1" by (simp add: rne_def Let_def)
  then show ?thesis
  proof
    assume "rne y = \<lfloor>y\<rfloor>"
    with f show ?thesis by simp linarith
  next
    assume "rne y = \<lfloor>y\<rfloor> + 1"
    with f show ?thesis by simp linarith
  qed
qed

lemma round32_finite:
  assumes "\<bar>x\<bar> \<le> 2 ^ 31"
  shows "\<exists>r. round32 x = Fin r"
proof -
  from quantum32_form [of "\<bar>x\<bar>"] obtain i where i: "i \<le> 254" "quantum32 \<bar>x\<bar> = ulp_min * 2 ^ i"
    "0 < i \<longrightarrow> ulp_min * 2 ^ i * 2 ^ 23 \<le> \<bar>x\<bar>" by auto
  let ?q = "ulp_min * 2 ^ i"
  have qpos: "0 < ?q" using ulp_min_pos by simp
  have q1: "?q \<le> 2 ^ 31"
  proof (cases "i = 0")
    case True
    then show ?thesis by (simp add: ulp_min_def)
  next
    case False
    then have "?q * 2 ^ 23 \<le> \<bar>x\<bar>" using i(3) by blast
    moreover have "?q \<le> ?q * 2 ^ 23" using qpos by simp
    ultimately show ?thesis using assms by linarith
  qed
  have "\<bar>real_of_int (rne (x / ?q)) * ?q\<bar> = \<bar>real_of_int (rne (x / ?q))\<bar> * ?q"
    using ulp_min_pos by (simp add: abs_mult)
  also have "\<dots> \<le> (\<bar>x / ?q\<bar> + 1) * ?q"
    using rne_near [of "x / ?q"] qpos by (intro mult_right_mono) simp_all
  also have "\<dots> = \<bar>x\<bar> + ?q" using ulp_min_pos by (simp add: field_simps)
  also have "\<dots> \<le> 2 ^ 31 + 2 ^ 31" using assms q1 by (rule add_mono)
  also have "\<dots> < (2::real) ^ 128" by simp
  finally have "\<not> 2 ^ 128 \<le> \<bar>real_of_int (rne (x / ?q)) * ?q\<bar>" by simp
  then show ?thesis unfolding round32_def Let_def i(2) by simp
qed

lemma round32_not_NaN: "round32 x \<noteq> NaN"
  by (simp add: round32_def Let_def)

lemma fint_finite: "\<bar>k\<bar> < 2 ^ 31 \<Longrightarrow> \<exists>r. fint k = Fin r"
proof -
  assume "\<bar>k\<bar> < 2 ^ 31"
  then have "real_of_int \<bar>k\<bar> < 2 ^ 31" by (metis of_int_less_numeral_power_cancel_iff)
  then have "\<bar>real_of_int k\<bar> \<le> 2 ^ 31" by simp
  then show ?thesis unfolding fint_def by (rule round32_finite)
qed

lemma square_nonneg: "a \<noteq> NaN \<Longrightarrow> nonneg_float (fmul a a)"
proof (cases a)
  case (Fin x)
  have "0 \<le> x * x" by simp
  from round32_nonneg [OF this] Fin show ?thesis by (simp add: nonneg_float_def)
qed (simp_all add: nonneg_float_def)

lemma sum_nonneg: "nonneg_float a \<Longrightarrow> nonneg_float b \<Longrightarrow> nonneg_float (fadd a b)"
proof -
  assume a: "nonneg_float a" and b: "nonneg_float b"
  show ?thesis
  proof (cases "a = PInf \<or> b = PInf")
    case True
    with a b show ?thesis by (auto simp: nonneg_float_def)
  next
    case False
    with a b obtain r s where r: "a = Fin r" "0 \<le> r" and s: "b = Fin s" "0 \<le> s"
      by (auto simp: nonneg_float_def)
    then have "0 \<le> r + s" by simp
    from round32_nonneg [OF this] r s show ?thesis by (simp add: nonneg_float_def)
  qed
qed

lemma sqrt_nonneg: "nonneg_float a \<Longrightarrow> fsqrt a \<noteq> NaN"
  by (auto simp: nonneg_float_def round32_not_NaN)

lemma stroke_length_not_NaN:
  assumes "\<bar>fst p2 - fst p1\<bar> < 2 ^ 31" and "\<bar>snd p2 - snd p1\<bar> < 2 ^ 31"
  shows "stroke_l12 (stroke_p12 (Fin c) p1 p2) \<noteq> NaN"
proof -
  from fint_finite [OF assms(1)] obtain rx where rx: "fint (fst p2 - fst p1) = Fin rx" ..
  from fint_finite [OF assms(2)] obtain ry where ry: "fint (snd p2 - snd p1) = Fin ry" ..
  have x: "fmul (Fin c) (fint (fst p2 - fst p1)) \<noteq> NaN" by (simp add: rx round32_not_NaN)
  have y: "fmul (Fin c) (fint (snd p2 - snd p1)) \<noteq> NaN" by (simp add: ry round32_not_NaN)
  show ?thesis
    unfolding stroke_l12_def stroke_p12_def
    by (simp add: sqrt_nonneg sum_nonneg square_nonneg x y)
qed

lemma flt_or_fle: "a \<noteq> NaN \<Longrightarrow> flt a (Fin b) \<or> fle (Fin b) a"
  by (cases a) (auto simp: fle_def)

text \<open>
  C1, as the code has it.  With a finite cell size, \<open>l12\<close> is the length of the
  stroke as the code computes it in single precision.  When \<open>l12 < 6\<close>,
  \<open>detect (p1, p2)\<close> returns null with the status \<open>TOO_NARROW_INPUT\<close> and no track
  (hence no plateau) is allocated; when \<open>l12 \<ge> 6\<close>, and so for a stroke whose
  length is exactly 6 m, the detection proceeds.  One of the two holds, as \<open>l12\<close>
  is not a NaN.
\<close>

theorem detect_too_narrow:
  assumes "det_csize d = Fin c"
    and "\<bar>fst p2 - fst p1\<bar> < 2 ^ 31" and "\<bar>snd p2 - snd p1\<bar> < 2 ^ 31"
    and "l12 = stroke_l12 (stroke_p12 (Fin c) p1 p2)"
  shows "(flt l12 (Fin 6) \<longrightarrow>
            (\<exists>d'. detect e d p1 p2 = Some (None, d') \<and> fstatus d' = RESULT_FAIL_TOO_NARROW_INPUT
                   \<and> fct d' = None \<and> ict d' = None))
       \<and> (fle (Fin 6) l12 \<longrightarrow> detect e d p1 p2 = detection e (stroke_input d p1 p2))
       \<and> (flt l12 (Fin 6) \<or> fle (Fin 6) l12)"
proof -
  have c: "det_csize (stroke_input d p1 p2) = Fin c"
    using assms(1) by (simp add: stroke_input_def clear_def)
  have n: "too_narrow (det_csize (stroke_input d p1 p2)) p1 p2 \<longleftrightarrow> flt l12 (Fin 6)"
    unfolding c by (simp add: too_narrow_def assms(4) MAX_TRACK_WIDTH_def)
  have "l12 \<noteq> NaN" unfolding assms(4) using assms(2,3) by (rule stroke_length_not_NaN)
  then have t: "flt l12 (Fin 6) \<or> fle (Fin 6) l12" by (rule flt_or_fle)
  have "fle (Fin 6) l12 \<Longrightarrow> \<not> flt l12 (Fin 6)" by (simp add: fle_def)
  with n t show ?thesis
    by (auto simp: detect_def Let_def stroke_input_def clear_def)
qed

text \<open>
  Two strokes: five cells of one metre, which is too narrow, and 25 cells of
  \<open>0.24f\<close> (the binary32 value \<open>16106127 / 2 ^ 26\<close>, a little less than 0.24), whose
  length is computed as 6 and which is not.
\<close>

lemma length_five: "stroke_l12 (stroke_p12 (Fin 1) (0, 0) (5, 0)) = Fin 5"
  by (simp add: stroke_l12_def stroke_p12_def fint_def round32_simps sqrt25)

lemma length_six: "stroke_l12 (stroke_p12 (Fin 1) (0, 0) (6, 0)) = Fin 6"
  by (simp add: stroke_l12_def stroke_p12_def fint_def round32_simps sqrt36)

lemma round32_quarter: "round32 (402653175 / 67108864) = Fin 6"
  by (subst round32_normal [of 128 "1 / 2 ^ 21"]) (simp_all add: rne_def Let_def ulp_min_def)

lemma length_quarter: "stroke_l12 (stroke_p12 (Fin (16106127 / 67108864)) (0, 0) (25, 0)) = Fin 6"
  by (simp add: stroke_l12_def stroke_p12_def fint_def round32_simps round32_quarter sqrt36)

theorem detect_too_narrow_witness:
  "stroke_l12 (stroke_p12 (Fin 1) (0, 0) (5, 0)) = Fin 5
   \<and> (\<exists>d'. detect env_void det_new (0, 0) (5, 0) = Some (None, d')
            \<and> fstatus d' = RESULT_FAIL_TOO_NARROW_INPUT \<and> fct d' = None \<and> ict d' = None)
   \<and> stroke_l12 (stroke_p12 (Fin (16106127 / 67108864)) (0, 0) (25, 0)) = Fin 6
   \<and> detect env_void (det_new\<lparr>det_csize := Fin (16106127 / 67108864)\<rparr>) (0, 0) (25, 0)
       = detection env_void
           (stroke_input (det_new\<lparr>det_csize := Fin (16106127 / 67108864)\<rparr>) (0, 0) (25, 0))"
proof -
  have c: "det_csize det_new = Fin 1" by (simp add: det_new_def)
  have q: "det_csize (det_new\<lparr>det_csize := Fin (16106127 / 67108864)\<rparr>) = Fin (16106127 / 67108864)"
    by simp
  from detect_too_narrow [OF c _ _ refl, of "(5, 0)" "(0, 0)" env_void]
    detect_too_narrow [OF q _ _ refl, of "(25, 0)" "(0, 0)" env_void]
  show ?thesis by (simp add: length_five length_quarter fle_def)
qed

text \<open>
  The claim as written fails on a stroke of exactly 6 m (six cells of one metre):
  the test is \<open>l12 < MAX_TRACK_WIDTH\<close>, the stroke is not too narrow, and the
  detection runs (here the initial detection finds no scan and says so in
  \<open>istatus\<close>); the status is not \<open>TOO_NARROW_INPUT\<close>.
\<close>

theorem detect_exactly_six_counterexample:
  "stroke_l12 (stroke_p12 (det_csize det_new) (0, 0) (6, 0)) = Fin 6
   \<and> \<not> too_narrow (det_csize det_new) (0, 0) (6, 0)
   \<and> detect env_void det_new (0, 0) (6, 0)
       = Some (None, det_new\<lparr>ip2 := (6, 0), fp2 := (6, 0),
                              istatus := RESULT_FAIL_NO_AVAILABLE_SCAN\<rparr>)
   \<and> fstatus (snd (the (detect env_void det_new (0, 0) (6, 0)))) \<noteq> RESULT_FAIL_TOO_NARROW_INPUT"
proof -
  have l: "stroke_l12 (stroke_p12 (det_csize det_new) (0, 0) (6, 0)) = Fin 6"
    by (simp add: det_new_def length_six)
  then have n: "\<not> too_narrow (det_csize det_new) (0, 0) (6, 0)"
    by (simp add: too_narrow_def MAX_TRACK_WIDTH_def)
  have c: "det_csize (stroke_input det_new (0, 0) (6, 0)) = det_csize det_new"
    by (simp add: stroke_input_def clear_def)
  have e: "detect env_void det_new (0, 0) (6, 0)
       = Some (None, det_new\<lparr>ip2 := (6, 0), fp2 := (6, 0),
                              istatus := RESULT_FAIL_NO_AVAILABLE_SCAN\<rparr>)"
    unfolding detect_def Let_def c using n
    by (simp add: det_new_def stroke_input_def clear_def detection_def detected_def
        detect_int_def env_void_def set_status_def realign_def finish_def)
  from l n e show ?thesis by (simp add: det_new_def)
qed

subsection \<open>The global pruning\<close>

lemma finish_Some:
  assumes "finish e d = (Some t, d')"
  shows "d' = d \<and> fct d = Some t \<and> \<not> too_hectic e d t \<and> \<not> too_sparse e d t"
  using assms by (auto simp: finish_def split: option.splits if_splits)

lemma detect_returns_finish:
  assumes "detect e d0 p1 p2 = Some (Some t, d')"
  shows "\<exists>d. finish e d = (Some t, d')"
proof (cases "too_narrow (det_csize (stroke_input d0 p1 p2)) p1 p2")
  case True
  with assms show ?thesis by (simp add: detect_def Let_def)
next
  case False
  with assms have "detection e (stroke_input d0 p1 p2) = Some (Some t, d')"
    by (simp add: detect_def Let_def)
  then show ?thesis by (auto simp: detection_def)
qed

lemma not_flt_fle: "a \<noteq> NaN \<Longrightarrow> b \<noteq> NaN \<Longrightarrow> \<not> flt a b \<Longrightarrow> fle b a"
  by (simp add: fle_def)

text \<open>
  C6.  A track that \<open>detect (p1, p2)\<close> returns passes both tests of the global
  pruning: with the shift-length pruning on, its relative shift length is not
  above \<open>max_shift_length\<close> (it is at most \<open>max_shift_length\<close> when neither is a
  NaN); with the density pruning on, \<open>nbHoles * 100\<close> is at most
  \<open>spread * (100 - min_density)\<close>.  When the detection reaches the global pruning
  with a final track \<open>t\<close>, that is when the stroke is not too narrow and the trials
  and the alignment leave a final track whose tail pruning has not failed,
  \<open>detect\<close> tests the shift length first and returns null with
  \<open>TOO_HECTIC_PLATEAUX\<close>, in the detector and in the track, when that test fails;
  it tests the density next and returns null with \<open>TOO_SPARSE_PLATEAUX\<close> when that
  one fails; and it returns the track otherwise.
\<close>

theorem detect_global_pruning:
  "(detect e d p1 p2 = Some (Some t', d') \<longrightarrow>
      fct d' = Some t'
      \<and> (shift_length_pruning d' \<longrightarrow> \<not> flt (max_shift_length d') (relativeShiftLength e t'))
      \<and> (shift_length_pruning d' \<and> max_shift_length d' \<noteq> NaN \<and> relativeShiftLength e t' \<noteq> NaN
            \<longrightarrow> fle (relativeShiftLength e t') (max_shift_length d'))
      \<and> (density_pruning d' \<longrightarrow> nbHoles e t' * 100 \<le> spread e t' * (100 - min_density d')))
   \<and> (\<not> too_narrow (det_csize d) p1 p2 \<and> detected e (stroke_input d p1 p2) = Some d2
        \<and> fct d2 = Some t \<and> fstatus d2 \<noteq> RESULT_FAIL_NO_CONSISTENT_SEQUENCE \<longrightarrow>
      detect e d p1 p2 =
        Some (if shift_length_pruning d2 \<and> flt (max_shift_length d2) (relativeShiftLength e t)
              then (None, d2\<lparr>fct := Some (t\<lparr>ct_status := RESULT_FAIL_TOO_HECTIC_PLATEAUX\<rparr>),
                              fstatus := RESULT_FAIL_TOO_HECTIC_PLATEAUX\<rparr>)
              else if density_pruning d2
                      \<and> nbHoles e t * 100 > spread e t * (100 - min_density d2)
              then (None, d2\<lparr>fct := Some (t\<lparr>ct_status := RESULT_FAIL_TOO_SPARSE_PLATEAUX\<rparr>),
                              fstatus := RESULT_FAIL_TOO_SPARSE_PLATEAUX\<rparr>)
              else (Some t, d2)))"
proof (intro conjI impI)
  assume a: "detect e d p1 p2 = Some (Some t', d')"
  from detect_returns_finish [OF a] obtain d3 where "finish e d3 = (Some t', d')" ..
  from finish_Some [OF this]
  have f: "fct d' = Some t'" and h: "\<not> too_hectic e d' t'" and s: "\<not> too_sparse e d' t'" by simp_all
  show "fct d' = Some t'" by (rule f)
  show "\<not> flt (max_shift_length d') (relativeShiftLength e t')" if "shift_length_pruning d'"
    using h that by (simp add: too_hectic_def)
  show "fle (relativeShiftLength e t') (max_shift_length d')"
    if "shift_length_pruning d' \<and> max_shift_length d' \<noteq> NaN \<and> relativeShiftLength e t' \<noteq> NaN"
    using h that by (simp add: too_hectic_def not_flt_fle)
  show "nbHoles e t' * 100 \<le> spread e t' * (100 - min_density d')" if "density_pruning d'"
    using s that by (simp add: too_sparse_def)
next
  assume a: "\<not> too_narrow (det_csize d) p1 p2 \<and> detected e (stroke_input d p1 p2) = Some d2
        \<and> fct d2 = Some t \<and> fstatus d2 \<noteq> RESULT_FAIL_NO_CONSISTENT_SEQUENCE"
  from a show "detect e d p1 p2 =
        Some (if shift_length_pruning d2 \<and> flt (max_shift_length d2) (relativeShiftLength e t)
              then (None, d2\<lparr>fct := Some (t\<lparr>ct_status := RESULT_FAIL_TOO_HECTIC_PLATEAUX\<rparr>),
                              fstatus := RESULT_FAIL_TOO_HECTIC_PLATEAUX\<rparr>)
              else if density_pruning d2
                      \<and> nbHoles e t * 100 > spread e t * (100 - min_density d2)
              then (None, d2\<lparr>fct := Some (t\<lparr>ct_status := RESULT_FAIL_TOO_SPARSE_PLATEAUX\<rparr>),
                              fstatus := RESULT_FAIL_TOO_SPARSE_PLATEAUX\<rparr>)
              else (Some t, d2))"
    by (simp add: detect_run finish_def too_hectic_def too_sparse_def)
qed

text \<open>
  The detector of the tool on the winding road, with the stroke from \<open>(0, 0)\<close> to
  \<open>(0, 7)\<close>: the track holds eight plateaux whose centres go from 3 m to 7 m and
  back, its relative shift length is \<open>28 / 8\<close>, above the \<open>0.5\<close> of the tool.
\<close>

lemma winding_central:
  "detect_auto env_winding (stroke_input det_tool (0, 0) (0, 7))
     = central_walks env_winding 0 geom_ex
         ((stroke_input det_tool (0, 0) (0, 7))\<lparr>fct := Some ct_new\<rparr>) (pl_found, True)"
  by (simp add: detect_auto_def stroke_geometry_def getInputStroke_def stroke_l12_def
      stroke_p12_def stroke_p1f_def fint_def env_winding_def env_road_def env_void_def
      det_tool_def det_new_def stroke_input_def clear_def geom_ex_def auto_central_def
      side_tests_list round32_simps sqrt49 Let_def)

lemma winding_walks:
  "\<exists>d2 t. central_walks env_winding 0 geom_ex
         ((stroke_input det_tool (0, 0) (0, 7))\<lparr>fct := Some ct_new\<rparr>) (pl_found, True) = Some d2
      \<and> ict d2 = None \<and> fct d2 = Some t \<and> fstatus d2 = RESULT_NONE
      \<and> map estimatedCenter (track_plateaux t)
          = [Fin 3, Fin 7, Fin 3, Fin 7, Fin 3, Fin 7, Fin 3, Fin 7]
      \<and> shift_length_pruning d2 \<and> max_shift_length d2 = Fin (1 / 2)"
  by (simp add: detect_defs walk_loop.simps env_winding_def env_road_def env_void_def det_tool_def
      det_new_def stroke_input_def clear_def pl_found_fields pl_aside_def geom_ex_def
      track_plateaux_def round32_simps Let_def)

lemma winding_shift:
  assumes "map estimatedCenter (track_plateaux t)
          = [Fin 3, Fin 7, Fin 3, Fin 7, Fin 3, Fin 7, Fin 3, Fin 7]"
  shows "relativeShiftLength env_winding t = Fin (7 / 2)"
proof -
  have "length (map estimatedCenter (track_plateaux t)) = 8" unfolding assms by simp
  then have "length (track_plateaux t) = 8" by simp
  then show ?thesis
    by (simp add: env_winding_def spec_shift_def spec_spread_def assms fabs_diff_def fsub_def
        fint_def round32_simps)
qed

lemma winding_detected:
  "\<exists>d2 t. detected env_winding (stroke_input det_tool (0, 0) (0, 7)) = Some d2
      \<and> fct d2 = Some t \<and> fstatus d2 \<noteq> RESULT_FAIL_NO_CONSISTENT_SEQUENCE
      \<and> shift_length_pruning d2 \<and> max_shift_length d2 = Fin (1 / 2)
      \<and> relativeShiftLength env_winding t = Fin (7 / 2)"
proof -
  from winding_walks obtain d2 t where
    a: "central_walks env_winding 0 geom_ex
         ((stroke_input det_tool (0, 0) (0, 7))\<lparr>fct := Some ct_new\<rparr>) (pl_found, True) = Some d2"
    and i: "ict d2 = None" and t: "fct d2 = Some t" and s: "fstatus d2 = RESULT_NONE"
    and c: "map estimatedCenter (track_plateaux t)
          = [Fin 3, Fin 7, Fin 3, Fin 7, Fin 3, Fin 7, Fin 3, Fin 7]"
    and h: "shift_length_pruning d2" "max_shift_length d2 = Fin (1 / 2)" by auto
  have a': "detect_auto env_winding (stroke_input det_tool (0, 0) (0, 7)) = Some d2"
    using a by (simp only: winding_central)
  have "auto_p (stroke_input det_tool (0, 0) (0, 7))"
    by (simp add: stroke_input_fields det_tool_def)
  from detected_auto [OF this a' i] t s h winding_shift [OF c] show ?thesis by simp
qed

theorem detect_global_pruning_witness:
  "fst (the (detect env_winding det_tool (0, 0) (0, 7))) = None
   \<and> fstatus (snd (the (detect env_winding det_tool (0, 0) (0, 7))))
       = RESULT_FAIL_TOO_HECTIC_PLATEAUX
   \<and> map_option ct_status (fct (snd (the (detect env_winding det_tool (0, 0) (0, 7)))))
       = Some RESULT_FAIL_TOO_HECTIC_PLATEAUX"
proof -
  from winding_detected obtain d2 t where
    d: "detected env_winding (stroke_input det_tool (0, 0) (0, 7)) = Some d2"
    and t: "fct d2 = Some t" and s: "fstatus d2 \<noteq> RESULT_FAIL_NO_CONSISTENT_SEQUENCE"
    and h: "shift_length_pruning d2" "max_shift_length d2 = Fin (1 / 2)"
      "relativeShiftLength env_winding t = Fin (7 / 2)" by blast
  have n: "\<not> too_narrow (det_csize det_tool) (0, 0) (0, 7)"
    by (simp add: too_narrow_def det_tool_def det_new_def length_seven MAX_TRACK_WIDTH_def)
  from detect_global_pruning [of env_winding det_tool "(0, 0)" "(0, 7)" _ _ d2 t] n d t s h
  show ?thesis by simp
qed

subsection \<open>The candidates of a scan\<close>

lemma walk_plateau_select:
  "walk_plateau e g w =
     fst (select_plateau
            (plateau_track e (w\<lparr>wdet := (wdet w)\<lparr>out_count := snd (walk_points e g w)\<rparr>\<rparr>)
               (fst (walk_points e g w)))
            (plateauSearchDistance e))"
  by (simp add: walk_plateau_def Let_def)

lemma walk_body_unfold:
  assumes "snd (walk_scan e w) \<noteq> []" and "get_ct exlimit (wdet w) = Some ct"
    and "d1 = (wdet w)\<lparr>out_count := snd (walk_points e g w)\<rparr>"
    and "pl = fst (select_plateau (plateau_track e (w\<lparr>wdet := d1\<rparr>) (fst (walk_points e g w)))
                    (plateauSearchDistance e))"
    and "cds = bounds_step exlimit (num w) pl (ct_add onright pl ct, d1, snd (walk_lacks e g w))"
  shows "walk_body e onright exlimit g w =
      accept_step e onright exlimit pl (fst cds)
        (w\<lparr>search := snd (snd cds), nbfail := fst (walk_lacks e g w), wdet := fst (snd cds)\<rparr>)"
  using assms(1,2) unfolding assms(3-5) by (simp add: walk_body_def walk_plateau_select Let_def)



section \<open>Properties of the scans\<close>

lemma emit_pixels:
  "q \<in> set (emit s p) \<Longrightarrow>
     dlc2 s \<le> val s (fst q) (snd q) \<and> xmin s \<le> fst q \<and> fst q \<le> fst p
       \<and> fst (snd p) \<le> snd q \<and> snd q < ymax s"
proof (induction s p rule: emit.induct)
  case (1 s x y i)
  show ?case
  proof (cases "val s x y \<ge> dlc2 s \<and> y < ymax s \<and> x \<ge> xmin s")
    case True
    with "1.prems" have "q = (x, y) \<or> q \<in> set (emit s (fwd s (x, y, i)))"
      by (simp add: emit.simps [of s x y i])
    then show ?thesis
    proof
      assume "q = (x, y)" with True show ?thesis by simp
    next
      assume a: "q \<in> set (emit s (fwd s (x, y, i)))"
      have le: "fst (fwd s (x, y, i)) \<le> x \<and> y \<le> fst (snd (fwd s (x, y, i)))"
        by (simp add: fwd_def)
      from "1.IH" [OF True a] le show ?thesis by simp
    qed
  next
    case False
    with "1.prems" show ?thesis by (simp add: emit.simps [of s x y i])
  qed
qed

lemma skip_out_result:
  assumes "skip_out s p = Some q"
  shows "(ymin s \<le> fst (snd q) \<and> fst q < xmax s) \<or> val s (fst q) (fst (snd q)) < dlc2 s"
proof (rule skip_out.raw_induct [OF _ assms])
  fix f :: "scanner \<Rightarrow> cursor \<Rightarrow> cursor option" and s p q
  assume IH: "\<And>s p q. f s p = Some q \<Longrightarrow>
      (ymin s \<le> fst (snd q) \<and> fst q < xmax s) \<or> val s (fst q) (fst (snd q)) < dlc2 s"
    and eq: "(if (fst (snd p) < ymin s \<or> xmax s \<le> fst p) \<and> dlc2 s \<le> val s (fst p) (fst (snd p))
              then f s (fwd s p) else Some p) = Some q"
  show "(ymin s \<le> fst (snd q) \<and> fst q < xmax s) \<or> val s (fst q) (fst (snd q)) < dlc2 s"
  proof (cases "(fst (snd p) < ymin s \<or> xmax s \<le> fst p) \<and> dlc2 s \<le> val s (fst p) (fst (snd p))")
    case True
    with eq have "f s (fwd s p) = Some q" by simp
    then show ?thesis by (rule IH)
  next
    case False
    with eq have "q = p" by simp
    with False show ?thesis by auto
  qed
qed

lemma emit_below: "val s x y < dlc2 s \<Longrightarrow> emit s (x, y, i) = []"
  by (simp add: emit.simps)

lemma scan_from_pixels:
  assumes "scan_from s p scan = Some (scan', n, s')"
  shows "\<exists>px. scan' = scan @ px \<and> (\<forall>q \<in> set px. dlc2 s \<le> val s (fst q) (snd q)
      \<and> xmin s \<le> fst q \<and> fst q < xmax s \<and> ymin s \<le> snd q \<and> snd q < ymax s)
      \<and> n = int (length scan') \<and> s' = s"
proof -
  from assms obtain c where c: "skip_out s p = Some c"
    by (cases "skip_out s p") (simp_all add: scan_from_def)
  with assms have sc: "scan' = scan @ emit s c"
    and n: "n = int (length scan')" and s': "s' = s"
    by (auto simp: scan_from_def Let_def)
  from skip_out_result [OF c]
  have d: "(ymin s \<le> fst (snd c) \<and> fst c < xmax s) \<or> val s (fst c) (fst (snd c)) < dlc2 s" .
  have "\<forall>q \<in> set (emit s c). dlc2 s \<le> val s (fst q) (snd q)
      \<and> xmin s \<le> fst q \<and> fst q < xmax s \<and> ymin s \<le> snd q \<and> snd q < ymax s"
  proof (cases "val s (fst c) (fst (snd c)) < dlc2 s")
    case True
    then have "emit s c = []" by (cases c) (simp add: emit.simps)
    then show ?thesis by simp
  next
    case False
    with d have in_r: "ymin s \<le> fst (snd c) \<and> fst c < xmax s" by simp
    show ?thesis
    proof
      fix q assume "q \<in> set (emit s c)"
      from emit_pixels [OF this] in_r
      show "dlc2 s \<le> val s (fst q) (snd q)
        \<and> xmin s \<le> fst q \<and> fst q < xmax s \<and> ymin s \<le> snd q \<and> snd q < ymax s"
        by simp
    qed
  qed
  with sc n s' show ?thesis by blast
qed


lemma val_fwd:
  "0 < dla s \<Longrightarrow> dlb s \<le> 0 \<Longrightarrow>
     val s (fst (fwd s p)) (fst (snd (fwd s p))) < val s (fst p) (fst (snd p))"
  by (cases p) (simp add: fwd_def val_def algebra_simps)

lemma skip_out_total:
  assumes a: "0 < dla s" and b: "dlb s \<le> 0"
  shows "skip_out s p \<noteq> None"
proof (induction "nat (val s (fst p) (fst (snd p)) - dlc2 s + 1)" arbitrary: p rule: less_induct)
  case less
  show ?case
  proof (cases "(fst (snd p) < ymin s \<or> xmax s \<le> fst p) \<and> dlc2 s \<le> val s (fst p) (fst (snd p))")
    case True
    from val_fwd [OF a b, of p] True
    have "nat (val s (fst (fwd s p)) (fst (snd (fwd s p))) - dlc2 s + 1)
            < nat (val s (fst p) (fst (snd p)) - dlc2 s + 1)"
      by simp
    from less [OF this] have "skip_out s (fwd s p) \<noteq> None" .
    with True show ?thesis by (subst skip_out.simps) simp
  next
    case False
    then have "skip_out s p = Some p" by (subst skip_out.simps) auto
    then show ?thesis by simp
  qed
qed

lemma scan_from_total:
  "0 < dla s \<Longrightarrow> dlb s \<le> 0 \<Longrightarrow> scan_from s p scan \<noteq> None"
  using skip_out_total [of s p] by (auto simp: scan_from_def Let_def)

lemma run_scan_total:
  assumes "0 < dla s" and "dlb s \<le> 0"
  shows "run_scan s call scan \<noteq> None"
proof (cases call)
  case First
  with assms show ?thesis by (simp add: first_def scan_from_total)
next
  case NextOnLeft
  with assms show ?thesis
    by (simp add: nextOnLeft_def Let_def split_def scan_from_total)
next
  case NextOnRight
  with assms show ?thesis
    by (simp add: nextOnRight_def Let_def split_def scan_from_total)
next
  case (SkipLeft k)
  with assms show ?thesis
    by (simp add: skipLeft_def Let_def split_def scan_from_total)
next
  case (SkipRight k)
  with assms show ?thesis
    by (simp add: skipRight_def Let_def split_def scan_from_total)
qed

lemma scan_from_new:
  assumes "scan_from s' p k = Some (scan', n, s'')"
    and "dla s' = dla s" "dlb s' = dlb s" "dlc2 s' = dlc2 s" "xmin s' = xmin s" "xmax s' = xmax s"
      "ymin s' = ymin s" "ymax s' = ymax s"
  shows "scan' = k @ drop (length k) scan'
       \<and> (\<forall>q \<in> set (drop (length k) scan').
            dlc2 s \<le> dla s * fst q + dlb s * snd q
            \<and> xmin s \<le> fst q \<and> fst q < xmax s \<and> ymin s \<le> snd q \<and> snd q < ymax s)"
proof -
  from scan_from_pixels [OF assms(1)] obtain px where
    "scan' = k @ px" and "\<forall>q \<in> set px. dlc2 s' \<le> val s' (fst q) (snd q)
      \<and> xmin s' \<le> fst q \<and> fst q < xmax s' \<and> ymin s' \<le> snd q \<and> snd q < ymax s'"
    by blast
  with assms(2-) show ?thesis by (simp add: val_def)
qed

text \<open>
  C3, as the code has it.  Every pixel \<open>(x, y)\<close> that \<open>first\<close>, \<open>nextOnLeft\<close>,
  \<open>nextOnRight\<close>, \<open>skipLeft\<close> or \<open>skipRight\<close> appends to the vector satisfies
  \<open>dlc2 \<le> a x + b y\<close> and lies in the rectangle, \<open>xmin \<le> x < xmax\<close> and
  \<open>ymin \<le> y < ymax\<close>.  Nothing is said of the upper bound \<open>dlc1\<close>: the scans do
  not test it.  (\<open>run_scan_total\<close> above: with \<open>a > 0\<close> and \<open>b \<le> 0\<close>, the
  directions of this octant, every scan returns.)
\<close>

theorem scan_pixels_in_strip:
  assumes "run_scan s call scan = Some (scan', n, s')"
  shows "scan' = kept s call scan @ new_pixels s call scan scan'
       \<and> (\<forall>q \<in> set (new_pixels s call scan scan').
            dlc2 s \<le> dla s * fst q + dlb s * snd q
            \<and> xmin s \<le> fst q \<and> fst q < xmax s \<and> ymin s \<le> snd q \<and> snd q < ymax s)"
proof (cases call)
  case First
  with assms have "scan_from s (lcx s, lcy s, lst2 s) scan = Some (scan', n, s')"
    by (simp add: first_def)
  from scan_from_new [OF this, of s] First show ?thesis by (simp add: new_pixels_def)
next
  case NextOnLeft
  with assms show ?thesis
    by (auto simp: nextOnLeft_def Let_def split_def new_pixels_def dest!: scan_from_new [where s = s])
next
  case NextOnRight
  with assms show ?thesis
    by (auto simp: nextOnRight_def Let_def split_def new_pixels_def dest!: scan_from_new [where s = s])
next
  case (SkipLeft k)
  with assms show ?thesis
    by (auto simp: skipLeft_def Let_def split_def new_pixels_def dest!: scan_from_new [where s = s])
next
  case (SkipRight k)
  with assms show ?thesis
    by (auto simp: skipRight_def Let_def split_def new_pixels_def dest!: scan_from_new [where s = s])
qed

theorem scan_pixels_in_strip_witness:
  "run_scan scan_ex NextOnRight [] = Some ([(3, 0), (2, 1), (1, 1)], 3, scan_ex\<lparr>rcx := 3, rst2 := 1\<rparr>)
   \<and> (3, 0) \<in> set (new_pixels scan_ex NextOnRight [] [(3, 0), (2, 1), (1, 1)])
   \<and> dlc2 scan_ex \<le> dla scan_ex * 3 + dlb scan_ex * 0
   \<and> xmin scan_ex \<le> 3 \<and> 3 < xmax scan_ex \<and> ymin scan_ex \<le> 0 \<and> 0 < ymax scan_ex"
proof -
  have e: "run_scan scan_ex NextOnRight [] =
      Some ([(3, 0), (2, 1), (1, 1)], 3, scan_ex\<lparr>rcx := 3, rst2 := 1\<rparr>)"
    by code_simp
  have m: "(3, 0) \<in> set (new_pixels scan_ex NextOnRight [] [(3, 0), (2, 1), (1, 1)])"
    by (simp add: new_pixels_def)
  from scan_pixels_in_strip [OF e] m e show ?thesis by fastforce
qed

text \<open>
  The claim as written fails on the upper bound.  On the scanner of the stroke from
  \<open>(2, 0)\<close> to \<open>(0, 1)\<close>, whose strip is \<open>-1 \<le> 2x - y \<le> 4\<close>, the first scan on
  the left is \<open>(2, -1), (1, -1), (0, 0)\<close>, and \<open>2 * 2 - (-1) = 5\<close> is above
  \<open>dlc1 = 4\<close>: the cursor is moved back to the first lattice point at or beyond the
  control line, and the walk emits from there.
\<close>

theorem scan_upper_bound_counterexample:
  "run_scan scan_ex NextOnLeft [] = Some ([(2, - 1), (1, - 1), (0, 0)], 3, scan_ex\<lparr>lcy := - 1\<rparr>)
   \<and> dlc1 (scan_ex\<lparr>lcy := - 1\<rparr>) = 4
   \<and> \<not> dla scan_ex * 2 + dlb scan_ex * (- 1) \<le> dlc1 (scan_ex\<lparr>lcy := - 1\<rparr>)"
  by code_simp

section \<open>Properties of bindTo\<close>

lemma sdiv_nonneg: "0 \<le> k \<Longrightarrow> 0 < l \<Longrightarrow> k sdiv l = k div (l::int)"
  by (simp add: signed_divide_int_def sgn_if)

lemma quot_mono:
  fixes t n1 ni o1 oi :: int
  assumes "0 \<le> t" "0 < o1" "0 < oi" "ni * o1 \<le> n1 * oi"
  shows "(t * ni) div oi \<le> (t * n1) div o1"
proof -
  have "real_of_int (t * ni) / real_of_int oi \<le> real_of_int (t * n1) / real_of_int o1"
  proof -
    have "real_of_int (t * ni * o1) \<le> real_of_int (t * n1 * oi)"
      using assms by (metis (no_types) mult.assoc mult_left_mono of_int_le_iff)
    then show ?thesis using assms by (simp add: field_simps)
  qed
  then have "\<lfloor>real_of_int (t * ni) / real_of_int oi\<rfloor> \<le> \<lfloor>real_of_int (t * n1) / real_of_int o1\<rfloor>"
    by (rule floor_mono)
  then show ?thesis by (simp only: floor_divide_of_int_eq)
qed

lemma bind_nu_max:
  assumes t: "0 \<le> templ_nu s" and a: "0 \<le> templ_a s"
    and nz: "templ_a s \<noteq> 0 \<or> templ_b s \<noteq> 0"
  shows "bind_nu s a b =
           Some (max ((templ_nu s * new_n1 a b) div old_n1 s)
                     ((templ_nu s * new_ninf a b) div old_ninf s))"
proof -
  have o1: "0 < old_n1 s" and oi: "0 < old_ninf s"
    using a nz by (auto simp: old_n1_def old_ninf_def iabs_def)
  have n1: "0 \<le> new_n1 a b" and ni: "0 \<le> new_ninf a b"
    by (auto simp: new_n1_def new_ninf_def iabs_def)
  show ?thesis
  proof (cases "new_n1 a b * old_ninf s > old_n1 s * new_ninf a b")
    case True
    then have "new_ninf a b * old_n1 s \<le> new_n1 a b * old_ninf s"
      by (simp add: mult.commute)
    from quot_mono [OF t o1 oi this]
    have "(templ_nu s * new_ninf a b) div old_ninf s \<le> (templ_nu s * new_n1 a b) div old_n1 s" .
    with True o1 t n1 show ?thesis
      by (simp add: bind_nu_def cdiv_def sdiv_nonneg max_def)
  next
    case False
    then have "new_n1 a b * old_ninf s \<le> new_ninf a b * old_n1 s"
      by (simp add: mult.commute)
    from quot_mono [OF t oi o1 this]
    have "(templ_nu s * new_n1 a b) div old_n1 s \<le> (templ_nu s * new_ninf a b) div old_ninf s" .
    with False oi t ni show ?thesis
      by (simp add: bind_nu_def cdiv_def sdiv_nonneg max_def)
  qed
qed

text \<open>
  C4, as the code has it.  For a template with \<open>templ_nu \<ge> 0\<close>, \<open>templ_a \<ge> 0\<close> and a
  direction that is not null, \<open>bindTo (a, b, c)\<close> rescales the template thickness by
  the ratio of the new to the old norm, once with the l1 norm and once with the
  l-infinity norm, and keeps the LARGER of the two integer quotients as \<open>nu\<close>.  The
  new bounds are \<open>c' + nu / 2\<close> and \<open>c' - nu / 2\<close>, where \<open>c'\<close> is \<open>c\<close>, negated when
  \<open>a < 0\<close> (the direction is then negated too); the thickness \<open>dlc1 - dlc2\<close> is
  therefore \<open>2 * (nu / 2)\<close>, which is \<open>nu\<close> only when \<open>nu\<close> is even.
\<close>

theorem bindTo_larger_quotient:
  assumes "0 \<le> templ_nu s" and "0 \<le> templ_a s"
    and "templ_a s \<noteq> 0 \<or> templ_b s \<noteq> 0"
    and "nu = max ((templ_nu s * new_n1 a b) div old_n1 s)
                  ((templ_nu s * new_ninf a b) div old_ninf s)"
    and "c' = (if a < 0 then - c else c)"
  shows "bindTo s a b c =
           Some (s\<lparr>dla := (if a < 0 then - a else a), dlb := (if a < 0 then - b else b),
                   dlc1 := c' + nu div 2, dlc2 := c' - nu div 2\<rparr>)
         \<and> dlc1 (the (bindTo s a b c)) - dlc2 (the (bindTo s a b c)) = 2 * (nu div 2)"
proof -
  have nn: "0 \<le> nu"
  proof -
    have "0 \<le> new_n1 a b" by (auto simp: new_n1_def iabs_def)
    then have "0 \<le> templ_nu s * new_n1 a b" using assms(1) by simp
    moreover have "0 < old_n1 s"
      using assms(2,3) by (auto simp: old_n1_def iabs_def)
    ultimately have "0 \<le> (templ_nu s * new_n1 a b) div old_n1 s"
      by (simp add: pos_imp_zdiv_nonneg_iff)
    then show ?thesis using assms(4) by simp
  qed
  then have "nu sdiv 2 = nu div 2" by (simp add: sdiv_nonneg)
  then have "bindTo s a b c =
           Some (s\<lparr>dla := (if a < 0 then - a else a), dlb := (if a < 0 then - b else b),
                   dlc1 := c' + nu div 2, dlc2 := c' - nu div 2\<rparr>)"
    using bind_nu_max [OF assms(1,2,3), of a b] assms(4,5)
    by (simp add: bindTo_def Let_def)
  then show ?thesis by simp
qed

theorem bindTo_larger_quotient_witness:
  "bindTo bind_ex 2 1 5 = Some (bind_ex\<lparr>dla := 2, dlb := 1, dlc1 := 9, dlc2 := 1\<rparr>)
   \<and> dlc1 (the (bindTo bind_ex 2 1 5)) - dlc2 (the (bindTo bind_ex 2 1 5)) = 8"
  using bindTo_larger_quotient [of bind_ex 9 2 1 5 5]
  by (simp add: bind_ex_def new_n1_def new_ninf_def old_n1_def old_ninf_def iabs_def)

text \<open>
  The claim as written fails on the template \<open>(1, 0)\<close> of thickness 3 rebound to
  \<open>(-2, 1)\<close> at offset 5: the l1 quotient is 9 and the l-infinity quotient is 6,
  the code keeps 9, the bounds are \<open>-5 \<plusminus> 4\<close>, so the thickness is 8 (neither 6
  nor 9) and the strip is centred on \<open>-5\<close>, not on 5.
\<close>

theorem bindTo_smaller_quotient_counterexample:
  "bindTo bind_ex (- 2) 1 5 = Some (bind_ex\<lparr>dla := 2, dlb := - 1, dlc1 := - 1, dlc2 := - 9\<rparr>)
   \<and> cdiv (templ_nu bind_ex * new_n1 (- 2) 1) (old_n1 bind_ex) = Some 9
   \<and> cdiv (templ_nu bind_ex * new_ninf (- 2) 1) (old_ninf bind_ex) = Some 6
   \<and> dlc1 (the (bindTo bind_ex (- 2) 1 5)) - dlc2 (the (bindTo bind_ex (- 2) 1 5)) \<noteq> min 9 6
   \<and> dlc1 (the (bindTo bind_ex (- 2) 1 5)) \<noteq> 5 + min 9 6 sdiv 2"
  by (simp add: bindTo_def bind_nu_def bind_ex_def cdiv_def new_n1_def new_ninf_def
      old_n1_def old_ninf_def iabs_def Let_def)

section \<open>Properties of the seeds file\<close>

lemma write_strokes_length: "length (write_strokes ps) = 2 * length ps"
  by (induction ps) (auto simp: write_strokes_def)

lemma stroke_pairs_length: "stroke_pairs b = Some ps \<Longrightarrow> length b = 2 * length ps"
  by (induction b arbitrary: ps rule: stroke_pairs.induct) auto

lemma write_strokes_append: "write_strokes (ps @ qs) = write_strokes ps @ write_strokes qs"
  by (simp add: write_strokes_def)

lemma bucket_Some: "bucket bs k = Some b \<Longrightarrow> 0 \<le> k \<and> k < int (length bs) \<and> b = bs ! nat k"
  by (auto simp: bucket_def split: if_splits)

lemma write_tiles_Nil: "write_tiles bs [] = Some []"
  by (simp add: write_tiles_def)

lemma write_tiles_Cons:
  "write_tiles bs (k # ks) =
     (case bucket bs k of None \<Rightarrow> None
      | Some b \<Rightarrow> (case stroke_pairs b of None \<Rightarrow> None
         | Some ps \<Rightarrow> map_option ((@) (write_strokes ps)) (write_tiles bs ks)))"
  by (simp add: write_tiles_def option.map_comp comp_def split: option.splits)

lemma write_tiles_body:
  "write_tiles bs ks = Some body \<Longrightarrow>
     (\<exists>ps. body = write_strokes ps)
     \<and> int (length body) = sum_list (map (\<lambda>k. int (length (bs ! nat k))) ks)"
proof (induction ks arbitrary: body)
  case Nil
  then have b: "body = write_strokes []" by (simp add: write_tiles_Nil write_strokes_def)
  then have "\<exists>ps. body = write_strokes ps" by blast
  moreover from b have "body = []" by (simp add: write_strokes_def)
  ultimately show ?case by simp
next
  case (Cons k ks)
  from Cons.prems obtain b ps rest where b: "bucket bs k = Some b"
    and ps: "stroke_pairs b = Some ps" and rest: "write_tiles bs ks = Some rest"
    and body: "body = write_strokes ps @ rest"
    by (auto simp: write_tiles_Cons split: option.splits)
  from Cons.IH [OF rest] obtain qs where qs: "rest = write_strokes qs"
    and len: "int (length rest) = sum_list (map (\<lambda>k. int (length (bs ! nat k))) ks)"
    by blast
  have "body = write_strokes (ps @ qs)" using body qs by (simp add: write_strokes_append)
  moreover have "int (length (write_strokes ps)) = int (length (bs ! nat k))"
    using bucket_Some [OF b] stroke_pairs_length [OF ps] by (simp add: write_strokes_length)
  moreover have "int (length body) = int (length (write_strokes ps)) + int (length rest)"
    using body by simp
  ultimately show ?case using len by auto
qed

lemma those_buckets:
  "those (map (\<lambda>i. bucket bs (int i)) xs) = Some ls \<Longrightarrow> ls = map (\<lambda>i. bs ! i) xs"
proof (induction xs arbitrary: ls)
  case Nil
  then show ?case by simp
next
  case (Cons x xs)
  then show ?case by (auto simp: bucket_def split: option.splits if_splits)
qed

lemma count_seeds_sum:
  "count_seeds bs n = Some nb \<Longrightarrow> nb = sum_list (map (\<lambda>i. int (length (bs ! i))) [0..<nat n])"
  by (auto simp: count_seeds_def comp_def dest!: those_buckets)

lemma row_plain: "map (\<lambda>i. int j * int c + int i) [0..<c] = map int [j * c..<j * c + c]"
proof -
  have "map int [j * c..<j * c + c] = map int (map (\<lambda>i. i + j * c) [0..<c])"
    by (simp only: map_add_upt add.commute)
  then show ?thesis by (simp add: comp_def add.commute)
qed

lemma row_rev: "map (\<lambda>i. int j * int c + (int c - 1 - int i)) [0..<c] = rev (map (\<lambda>i. int j * int c + int i) [0..<c])"
proof (rule nth_equalityI)
  show "length (map (\<lambda>i. int j * int c + (int c - 1 - int i)) [0..<c]) = length (rev (map (\<lambda>i. int j * int c + int i) [0..<c]))"
    by simp
next
  fix i assume "i < length (map (\<lambda>i. int j * int c + (int c - 1 - int i)) [0..<c])"
  then have i: "i < c" by simp
  then show "map (\<lambda>i. int j * int c + (int c - 1 - int i)) [0..<c] ! i = rev (map (\<lambda>i. int j * int c + int i) [0..<c]) ! i"
    by (simp add: rev_nth of_nat_diff algebra_simps)
qed

lemma row_sum:
  fixes f :: "int \<Rightarrow> int"
  shows "sum_list (map f (map (\<lambda>i. tile_index (int c) (int j) (int i)) [0..<c]))
     = sum_list (map f (map int [j * c..<j * c + c]))"
proof (cases "int j mod 2 \<noteq> 0")
  case True
  then have "map (\<lambda>i. tile_index (int c) (int j) (int i)) [0..<c]
      = rev (map int [j * c..<j * c + c])"
    by (simp add: tile_index_def row_rev row_plain)
  then have "sum_list (map f (map (\<lambda>i. tile_index (int c) (int j) (int i)) [0..<c]))
      = sum_list (rev (map f (map int [j * c..<j * c + c])))"
    by (simp only: rev_map)
  then show ?thesis by (simp only: sum_list_rev)
next
  case False
  then have "map (\<lambda>i. tile_index (int c) (int j) (int i)) [0..<c]
      = map int [j * c..<j * c + c]"
    by (simp add: tile_index_def row_plain)
  then show ?thesis by simp
qed

lemma tile_order_sum:
  fixes f :: "int \<Rightarrow> int"
  shows "sum_list (map f (tile_order (int c) (int r))) = sum_list (map f (map int [0..<r * c]))"
proof (induction r)
  case 0
  then show ?case by (simp add: tile_order_def)
next
  case (Suc r)
  have sp: "[0..<r * c] @ [r * c..<r * c + c] = [0..<Suc r * c]"
    using upt_add_eq_append [of 0 "r * c" c] by (simp add: add.commute)
  have eq: "tile_order (int c) (int (Suc r))
      = tile_order (int c) (int r) @ map (\<lambda>i. tile_index (int c) (int r) (int i)) [0..<c]"
    unfolding tile_order_def nat_int by simp
  have "sum_list (map f (tile_order (int c) (int (Suc r))))
      = sum_list (map f (tile_order (int c) (int r)))
        + sum_list (map f (map (\<lambda>i. tile_index (int c) (int r) (int i)) [0..<c]))"
    by (simp only: eq map_append sum_list_append)
  also have "\<dots> = sum_list (map f (map int [0..<r * c]))
        + sum_list (map f (map int [r * c..<r * c + c]))"
    by (simp only: Suc row_sum)
  also have "\<dots> = sum_list (map f (map int ([0..<r * c] @ [r * c..<r * c + c])))"
    by (simp only: map_append sum_list_append)
  finally show ?case by (simp only: sp)
qed

lemma stroke_pairs_even: "even (length b) \<Longrightarrow> stroke_pairs b \<noteq> None"
  by (induction b rule: stroke_pairs.induct) auto

lemma those_map_Some: "(\<forall>x \<in> set xs. f x \<noteq> None) \<Longrightarrow> those (map f xs) \<noteq> None"
  by (induction xs) (auto split: option.splits)

lemma tile_order_range:
  assumes "k \<in> set (tile_order (int c) (int r))"
  shows "0 \<le> k \<and> k < int (r * c)"
proof -
  from assms obtain j i where j: "j < r" and i: "i < c"
    and k: "k = tile_index (int c) (int j) (int i)"
    by (auto simp: tile_order_def)
  have lo: "int j * int c \<le> k" and hi: "k < int j * int c + int c"
    using i by (auto simp: k tile_index_def)
  have "0 \<le> int j * int c" by simp
  with lo have "0 \<le> k" by linarith
  moreover have "int j * int c + int c = int (Suc j * c)" by (simp add: algebra_simps)
  moreover have "Suc j * c \<le> r * c" using j by (intro mult_le_mono1) simp
  ultimately show ?thesis using hi by (metis (no_types) less_le_trans of_nat_le_iff)
qed

text \<open>
  Without retiling, \<open>saveSeeds\<close> returns as soon as \<open>out_seeds\<close> has one vector per
  tile and every vector holds whole strokes.
\<close>

lemma saveSeeds_returns:
  assumes "\<not> isHalfSizeSeedsOn t"
    and "0 \<le> columnsOfTiles t" and "0 \<le> rowsOfTiles t"
    and "int (length (out_seeds t)) = columnsOfTiles t * rowsOfTiles t"
    and "\<forall>b \<in> set (out_seeds t). even (length b)"
  shows "saveSeeds t \<noteq> None"
proof (cases "is_open t")
  case False
  then show ?thesis by (simp add: saveSeeds_def)
next
  case True
  obtain c r where c: "columnsOfTiles t = int c" and r: "rowsOfTiles t = int r"
    using assms(2,3) by (metis nat_0_le)
  have len: "length (out_seeds t) = r * c"
    using assms(4) by (simp add: c r mult.commute flip: of_nat_mult)
  have "nat (int c * int r) = r * c" by (simp add: nat_mult_distrib mult.commute)
  then have "\<forall>i \<in> set [0..<nat (int c * int r)]. bucket (out_seeds t) (int i) \<noteq> None"
    by (auto simp: bucket_def len mult.commute simp flip: of_nat_mult)
  then have cnt: "count_seeds (out_seeds t) (int c * int r) \<noteq> None"
    by (simp add: count_seeds_def those_map_Some)
  have "\<forall>k \<in> set (tile_order (int c) (int r)).
          Option.bind (bucket (out_seeds t) k) (\<lambda>b. map_option write_strokes (stroke_pairs b)) \<noteq> None"
  proof
    fix k assume "k \<in> set (tile_order (int c) (int r))"
    from tile_order_range [OF this] have k: "0 \<le> k" "k < int (length (out_seeds t))"
      by (simp_all add: len)
    then have "out_seeds t ! nat k \<in> set (out_seeds t)" by simp
    with assms(5) have "stroke_pairs (out_seeds t ! nat k) \<noteq> None"
      by (simp add: stroke_pairs_even)
    with k show "Option.bind (bucket (out_seeds t) k) (\<lambda>b. map_option write_strokes (stroke_pairs b)) \<noteq> None"
      by (simp add: bucket_def)
  qed
  then have "write_tiles (out_seeds t) (tile_order (int c) (int r)) \<noteq> None"
    by (simp add: write_tiles_def those_map_Some)
  with cnt True assms(1) show ?thesis
    by (auto simp: saveSeeds_def Let_def c r)
qed

lemma sum_map_int: "sum_list (map (\<lambda>k. int (length (bs ! nat k))) (map int xs)) = sum_list (map (\<lambda>i. int (length (bs ! i))) xs)"
  by (simp add: comp_def)

text \<open>
  C5, as the code has it.  When the numbers of columns and rows of tiles are not
  negative, the file that \<open>saveSeeds\<close> writes is the header (width, height, cell
  size, columns and rows of tiles; all doubled but the cell size, which is halved,
  in half-size mode), then the count, then the strokes, two points each.  The
  count is the number of POINTS that follow, twice the number of strokes: it sums
  the sizes of the vectors of points, and \<open>loadSeeds\<close> reads that many points.
\<close>

theorem saveSeeds_count:
  assumes "saveSeeds t = Some (True, out)"
    and "0 \<le> columnsOfTiles t" and "0 \<le> rowsOfTiles t"
  shows "\<exists>ps. out = seeds_header t @ I32 (2 * int (length ps)) # write_strokes ps
              \<and> length (write_strokes ps) = 2 * length ps"
proof -
  obtain c r where c: "columnsOfTiles t = int c" and r: "rowsOfTiles t = int r"
    using assms(2,3) by (metis nat_0_le)
  have op: "is_open t" using assms(1) by (auto simp: saveSeeds_def Let_def split: if_splits)
  have "\<exists>nb body. out = seeds_header t @ I32 nb # body \<and> nb = int (length body)
                  \<and> (\<exists>ps. body = write_strokes ps)"
  proof (cases "isHalfSizeSeedsOn t")
    case False
    with assms(1) op obtain nb body where nb: "count_seeds (out_seeds t) (int c * int r) = Some nb"
      and body: "write_tiles (out_seeds t) (tile_order (int c) (int r)) = Some body"
      and out: "out = seeds_header t @ I32 nb # body"
      by (auto simp: saveSeeds_def Let_def c r split: option.splits)
    from write_tiles_body [OF body] have ps: "\<exists>ps. body = write_strokes ps"
      and len: "int (length body) = sum_list (map (\<lambda>k. int (length (out_seeds t ! nat k))) (tile_order (int c) (int r)))"
      by auto
    have "nat (int c * int r) = r * c" by (simp add: nat_mult_distrib mult.commute)
    with count_seeds_sum [OF nb]
    have "nb = sum_list (map (\<lambda>i. int (length (out_seeds t ! i))) [0..<r * c])" by simp
    also have "\<dots> = int (length body)"
      by (simp only: len tile_order_sum sum_map_int)
    finally show ?thesis using out ps by blast
  next
    case True
    with assms(1) op obtain rs nb body where nb: "count_seeds rs (int c * int r * 4) = Some nb"
      and body: "write_tiles rs (map int [0..<nat (int r * 2) * nat (int c * 2)]) = Some body"
      and out: "out = seeds_header t @ I32 nb # body"
      by (auto simp: saveSeeds_def Let_def c r split: option.splits if_splits)
    from write_tiles_body [OF body] have ps: "\<exists>ps. body = write_strokes ps"
      and len: "int (length body) = sum_list (map (\<lambda>k. int (length (rs ! nat k))) (map int [0..<nat (int r * 2) * nat (int c * 2)]))"
      by auto
    have "nat (int c * int r * 4) = nat (int r * 2) * nat (int c * 2)"
      by (simp add: nat_mult_distrib)
    with count_seeds_sum [OF nb]
    have "nb = sum_list (map (\<lambda>i. int (length (rs ! i))) [0..<nat (int r * 2) * nat (int c * 2)])"
      by simp
    also have "\<dots> = int (length body)"
      by (simp only: len sum_map_int)
    finally show ?thesis using out ps by blast
  qed
  then obtain nb body ps where "out = seeds_header t @ I32 nb # body" "nb = int (length body)"
    "body = write_strokes ps" by blast
  then have "out = seeds_header t @ I32 (2 * int (length ps)) # write_strokes ps"
    by (simp add: write_strokes_length)
  then show ?thesis using write_strokes_length by blast
qed

theorem saveSeeds_count_witness:
  "saveSeeds seeds_ex2 = Some (True,
     [I32 100, I32 100, F32 (Fin 1), I32 2, I32 2, I32 8, P2 (0, 0),
      P2 (6, 0), P2 (80, 80), P2 (80, 90), P2 (10, 60), P2 (10, 70),
      P2 (20, 60), P2 (20, 70)])
   \<and> 0 \<le> columnsOfTiles seeds_ex2 \<and> 0 \<le> rowsOfTiles seeds_ex2
   \<and> (\<exists>ps. [I32 100, I32 100, F32 (Fin 1), I32 2, I32 2, I32 8, P2 (0, 0),
      P2 (6, 0), P2 (80, 80), P2 (80, 90), P2 (10, 60), P2 (10, 70),
      P2 (20, 60), P2 (20, 70)] = seeds_header seeds_ex2 @ I32 (2 * int (length ps)) # write_strokes ps
            \<and> length (write_strokes ps) = 2 * length ps)"
proof -
  have e: "saveSeeds seeds_ex2 = Some (True,
     [I32 100, I32 100, F32 (Fin 1), I32 2, I32 2, I32 8, P2 (0, 0),
      P2 (6, 0), P2 (80, 80), P2 (80, 90), P2 (10, 60), P2 (10, 70),
      P2 (20, 60), P2 (20, 70)])"
    by code_simp
  have c: "0 \<le> columnsOfTiles seeds_ex2" and r: "0 \<le> rowsOfTiles seeds_ex2"
    by (simp_all add: seeds_ex2_def)
  from saveSeeds_count [OF e c r] e c r show ?thesis by simp
qed

text \<open>
  The claim as written fails on one tile with one stroke: the count written is 2
  and one stroke pair follows.
\<close>

theorem saveSeeds_count_counterexample:
  "saveSeeds seeds_ex1 =
     Some (True, [I32 100, I32 100, F32 (Fin 1), I32 1, I32 1, I32 2, P2 (0, 0), P2 (6, 0)])
   \<and> write_strokes [((0, 0), (6, 0))] = [P2 (0, 0), P2 (6, 0)]
   \<and> (2::int) \<noteq> int (length [((0::int, 0::int), (6::int, 0::int))])"
  by code_simp

section \<open>Normalising the zero vector\<close>

text \<open>
  C10.  \<open>Pt3f::normalize\<close> leaves the zero vector unchanged, since it divides only
  when the norm is not zero.  \<open>Pt2f::normalize\<close> divides unconditionally: on the
  zero point it computes \<open>0 / 0\<close> twice, and both components become NaN, which
  is not a finite value.
\<close>

theorem normalize_zero_vector:
  "Pt3f_normalize \<lparr>xp = Fin 0, yp = Fin 0, zp = Fin 0\<rparr> = \<lparr>xp = Fin 0, yp = Fin 0, zp = Fin 0\<rparr>
   \<and> Pt2f_normalize \<lparr>xp2 = Fin 0, yp2 = Fin 0\<rparr> = \<lparr>xp2 = NaN, yp2 = NaN\<rparr>
   \<and> \<not> finite_float (xp2 (Pt2f_normalize \<lparr>xp2 = Fin 0, yp2 = Fin 0\<rparr>))
   \<and> \<not> finite_float (yp2 (Pt2f_normalize \<lparr>xp2 = Fin 0, yp2 = Fin 0\<rparr>))"
  by (simp add: Pt3f_normalize_def Pt2f_normalize_def fne0_def round32_0 Let_def)

end
